theory Spec2Isabelle
  imports Main "HOL-Library.Stream" "HOL-Library.AList" "HOL-Library.Sublist"
begin

section \<open>The host language: strings, dates, randomness\<close>

text \<open>
  A \<^verbatim>\<open>Date\<close> object is modelled by its time value. The two effects the entity
  constructors have are reading \<^verbatim>\<open>Math.random()\<close> and reading the clock
  (\<^verbatim>\<open>new Date()\<close>); both are threaded explicitly: \<open>random_src\<close> holds the successive
  results of \<^verbatim>\<open>Math.random().toString(36)\<close>, \<open>clock\<close> the successive results of
  \<^verbatim>\<open>new Date()\<close>.
\<close>

type_synonym date = int

record sys =
  random_src :: "string stream"
  clock :: "date stream"

text \<open>\<^verbatim>\<open>Math.random().toString(36).substr(2, 9)\<close>\<close>

definition generateId :: "sys \<Rightarrow> string \<times> sys" where
  "generateId \<sigma> =
     (take 9 (drop 2 (shd (random_src \<sigma>))), \<sigma>\<lparr>random_src := stl (random_src \<sigma>)\<rparr>)"

definition new_Date :: "sys \<Rightarrow> date \<times> sys" where
  "new_Date \<sigma> = (shd (clock \<sigma>), \<sigma>\<lparr>clock := stl (clock \<sigma>)\<rparr>)"

text \<open>
  The operator \<^verbatim>\<open>||\<close> on an optional string: \<^verbatim>\<open>undefined\<close> and the empty string
  are falsy. \<open>str_or a b\<close> is \<^verbatim>\<open>a || b\<close> for a pure \<open>b\<close>, \<open>str_or_undefined a\<close> is
  \<^verbatim>\<open>a || undefined\<close>, \<open>id_or_generate\<close> is \<^verbatim>\<open>data.id || this.generateId()\<close> (the
  generator runs only when the left operand is falsy) and \<open>date_or_now\<close> is
  \<^verbatim>\<open>data.createdAt || new Date()\<close> (a Date object is always truthy).
\<close>

definition str_or :: "string option \<Rightarrow> string \<Rightarrow> string" where
  "str_or a b = (case a of None \<Rightarrow> b | Some s \<Rightarrow> if s = [] then b else s)"

definition str_or_undefined :: "string option \<Rightarrow> string option" where
  "str_or_undefined a = (case a of None \<Rightarrow> None | Some s \<Rightarrow> if s = [] then None else Some s)"

definition id_or_generate :: "sys \<Rightarrow> string option \<Rightarrow> string \<times> sys" where
  "id_or_generate \<sigma> a =
     (case a of None \<Rightarrow> generateId \<sigma> | Some s \<Rightarrow> if s = [] then generateId \<sigma> else (s, \<sigma>))"

definition date_or_now :: "sys \<Rightarrow> date option \<Rightarrow> date option \<times> sys" where
  "date_or_now \<sigma> a =
     (case a of None \<Rightarrow> (let (d, \<sigma>') = new_Date \<sigma> in (Some d, \<sigma>')) | Some d \<Rightarrow> (Some d, \<sigma>))"

section \<open>Permission (types/index.ts, models/Permission.ts)\<close>

text \<open>
  \<open>IPermission\<close> is the interface \<^verbatim>\<open>Permission\<close> of types/index.ts (a plain object),
  \<open>PartialPermission\<close> is \<^verbatim>\<open>Partial<IPermission>\<close>, the constructor's argument, and
  \<open>Permission\<close> is the class: its \<open>guardName\<close> is always a string.
\<close>

record IPermission =
  ip_id :: string
  ip_name :: string
  ip_guardName :: "string option"
  ip_description :: "string option"
  ip_createdAt :: "date option"
  ip_updatedAt :: "date option"

record PartialPermission =
  pp_id :: "string option"
  pp_name :: "string option"
  pp_guardName :: "string option"
  pp_description :: "string option"
  pp_createdAt :: "date option"
  pp_updatedAt :: "date option"

record Permission =
  p_id :: string
  p_name :: string
  p_guardName :: string
  p_description :: "string option"
  p_createdAt :: "date option"
  p_updatedAt :: "date option"

text \<open>An \<open>IPermission\<close> passed where a \<^verbatim>\<open>Partial<IPermission>\<close> is expected, and a class
  instance read through the interface it implements.\<close>

definition IPermission_as_Partial :: "IPermission \<Rightarrow> PartialPermission" where
  "IPermission_as_Partial e =
     \<lparr>pp_id = Some (ip_id e), pp_name = Some (ip_name e), pp_guardName = ip_guardName e,
      pp_description = ip_description e, pp_createdAt = ip_createdAt e,
      pp_updatedAt = ip_updatedAt e\<rparr>"

definition Permission_as_IPermission :: "Permission \<Rightarrow> IPermission" where
  "Permission_as_IPermission p =
     \<lparr>ip_id = p_id p, ip_name = p_name p, ip_guardName = Some (p_guardName p),
      ip_description = p_description p, ip_createdAt = p_createdAt p,
      ip_updatedAt = p_updatedAt p\<rparr>"

text \<open>The constructor: the fields are assigned in the order of the source, so the
  identifier is generated before the clock is read.\<close>

definition new_Permission :: "sys \<Rightarrow> PartialPermission \<Rightarrow> Permission \<times> sys" where
  "new_Permission \<sigma> data =
     (let (i, \<sigma>1) = id_or_generate \<sigma> (pp_id data);
          n = str_or (pp_name data) [];
          g = str_or (pp_guardName data) ''web'';
          d = str_or_undefined (pp_description data);
          (c, \<sigma>2) = date_or_now \<sigma>1 (pp_createdAt data);
          (u, \<sigma>3) = date_or_now \<sigma>2 (pp_updatedAt data)
      in (\<lparr>p_id = i, p_name = n, p_guardName = g, p_description = d,
            p_createdAt = c, p_updatedAt = u\<rparr>, \<sigma>3))"

definition Permission_toJSON :: "Permission \<Rightarrow> IPermission" where
  "Permission_toJSON p =
     \<lparr>ip_id = p_id p, ip_name = p_name p, ip_guardName = Some (p_guardName p),
      ip_description = str_or_undefined (p_description p), ip_createdAt = p_createdAt p,
      ip_updatedAt = p_updatedAt p\<rparr>"

definition Permission_fromJSON :: "sys \<Rightarrow> IPermission \<Rightarrow> Permission \<times> sys" where
  "Permission_fromJSON \<sigma> data = new_Permission \<sigma> (IPermission_as_Partial data)"

definition Permission_equals :: "Permission \<Rightarrow> Permission \<Rightarrow> bool" where
  "Permission_equals this other =
     (p_id this = p_id other \<and> p_name this = p_name other \<and> p_guardName this = p_guardName other)"

section \<open>Role (types/index.ts, models/Role.ts)\<close>

text \<open>
  A value of type \<^verbatim>\<open>Permission | IPermission\<close>, which the code inspects with
  \<^verbatim>\<open>instanceof Permission\<close>: a class instance or a plain object.
\<close>

datatype perm_obj = Instance Permission | Plain IPermission

record IRole =
  ir_id :: string
  ir_name :: string
  ir_guardName :: "string option"
  ir_description :: "string option"
  ir_permissions :: "IPermission list option"
  ir_createdAt :: "date option"
  ir_updatedAt :: "date option"

record PartialRole =
  pr_id :: "string option"
  pr_name :: "string option"
  pr_guardName :: "string option"
  pr_description :: "string option"
  pr_permissions :: "perm_obj list option"
  pr_createdAt :: "date option"
  pr_updatedAt :: "date option"

record Role =
  r_id :: string
  r_name :: string
  r_guardName :: string
  r_description :: "string option"
  r_permissions :: "Permission list"
  r_createdAt :: "date option"
  r_updatedAt :: "date option"

text \<open>\<^verbatim>\<open>p instanceof Permission ? p : new Permission(p)\<close>, and the same mapped over an
  array from left to right.\<close>

definition as_Permission :: "sys \<Rightarrow> perm_obj \<Rightarrow> Permission \<times> sys" where
  "as_Permission \<sigma> obj =
     (case obj of Instance p \<Rightarrow> (p, \<sigma>) | Plain e \<Rightarrow> new_Permission \<sigma> (IPermission_as_Partial e))"

fun map_as_Permission :: "sys \<Rightarrow> perm_obj list \<Rightarrow> Permission list \<times> sys" where
  "map_as_Permission \<sigma> [] = ([], \<sigma>)"
| "map_as_Permission \<sigma> (x # xs) =
     (let (p, \<sigma>1) = as_Permission \<sigma> x;
          (ps, \<sigma>2) = map_as_Permission \<sigma>1 xs
      in (p # ps, \<sigma>2))"

definition new_Role :: "sys \<Rightarrow> PartialRole \<Rightarrow> Role \<times> sys" where
  "new_Role \<sigma> data =
     (let (i, \<sigma>1) = id_or_generate \<sigma> (pr_id data);
          n = str_or (pr_name data) [];
          g = str_or (pr_guardName data) ''web'';
          d = str_or_undefined (pr_description data);
          (ps, \<sigma>2) = map_as_Permission \<sigma>1 (case pr_permissions data of None \<Rightarrow> [] | Some xs \<Rightarrow> xs);
          (c, \<sigma>3) = date_or_now \<sigma>2 (pr_createdAt data);
          (u, \<sigma>4) = date_or_now \<sigma>3 (pr_updatedAt data)
      in (\<lparr>r_id = i, r_name = n, r_guardName = g, r_description = d, r_permissions = ps,
            r_createdAt = c, r_updatedAt = u\<rparr>, \<sigma>4))"

definition Role_toJSON :: "Role \<Rightarrow> IRole" where
  "Role_toJSON r =
     \<lparr>ir_id = r_id r, ir_name = r_name r, ir_guardName = Some (r_guardName r),
      ir_description = str_or_undefined (r_description r),
      ir_permissions = Some (map Permission_toJSON (r_permissions r)),
      ir_createdAt = r_createdAt r, ir_updatedAt = r_updatedAt r\<rparr>"

text \<open>The objects inside a JSON value are plain objects, never class instances.\<close>

definition IRole_as_Partial :: "IRole \<Rightarrow> PartialRole" where
  "IRole_as_Partial d =
     \<lparr>pr_id = Some (ir_id d), pr_name = Some (ir_name d), pr_guardName = ir_guardName d,
      pr_description = ir_description d,
      pr_permissions = map_option (map Plain) (ir_permissions d),
      pr_createdAt = ir_createdAt d, pr_updatedAt = ir_updatedAt d\<rparr>"

definition Role_fromJSON :: "sys \<Rightarrow> IRole \<Rightarrow> Role \<times> sys" where
  "Role_fromJSON \<sigma> data = new_Role \<sigma> (IRole_as_Partial data)"

definition Role_equals :: "Role \<Rightarrow> Role \<Rightarrow> bool" where
  "Role_equals this other =
     (r_id this = r_id other \<and> r_name this = r_name other \<and> r_guardName this = r_guardName other)"

section \<open>The Has-Permissions mixin (traits/HasPermissions.ts)\<close>

text \<open>
  A subject carries its direct permissions (class instances) and its assigned roles. The
  roles are declared \<^verbatim>\<open>any[]\<close> and read through \<^verbatim>\<open>role.permissions?.some(...)\<close> with
  elements typed \<^verbatim>\<open>IPermission\<close>, so they are modelled by the interface \<open>IRole\<close>, whose
  permission list and guard names are optional. An argument of type
  \<^verbatim>\<open>string | IPermission\<close> is a \<open>permission_arg\<close>; a guard argument is a
  \<open>string option\<close>, with \<open>None\<close> for an omitted argument, which takes the parameter default
  \<^verbatim>\<open>'web'\<close>.
\<close>

datatype permission_arg = ByName string | ByEntity IPermission

record subject =
  permissions :: "Permission list"
  roles :: "IRole list"

definition guard_param :: "string option \<Rightarrow> string" where
  "guard_param guardName = (case guardName of None \<Rightarrow> ''web'' | Some g \<Rightarrow> g)"

definition permission_name :: "permission_arg \<Rightarrow> string" where
  "permission_name permission = (case permission of ByName n \<Rightarrow> n | ByEntity e \<Rightarrow> ip_name e)"

text \<open>The inner test of \<^verbatim>\<open>hasPermission\<close> on one role:
  \<^verbatim>\<open>role.permissions?.some(p => p.name === permissionName && p.guardName === guardName)\<close>;
  a role without a permission list yields \<^verbatim>\<open>undefined\<close>, which \<^verbatim>\<open>some\<close> reads as false.\<close>

definition role_has_permission :: "IRole \<Rightarrow> string \<Rightarrow> string \<Rightarrow> bool" where
  "role_has_permission role permissionName g =
     (case ir_permissions role of
        None \<Rightarrow> False
      | Some ps \<Rightarrow> list_ex (\<lambda>p. ip_name p = permissionName \<and> ip_guardName p = Some g) ps)"

definition hasPermission :: "subject \<Rightarrow> permission_arg \<Rightarrow> string option \<Rightarrow> bool" where
  "hasPermission this permission guardName =
     (let g = guard_param guardName;
          permissionName = permission_name permission
      in if list_ex (\<lambda>p. p_name p = permissionName \<and> p_guardName p = g) (permissions this)
         then True
         else list_ex (\<lambda>role. role_has_permission role permissionName g) (roles this))"

text \<open>The entity \<^verbatim>\<open>givePermissionTo\<close> builds before its test: from a name and the guard
  argument, or from the entity alone (the guard argument is not used then).\<close>

definition permission_of_arg :: "sys \<Rightarrow> permission_arg \<Rightarrow> string \<Rightarrow> Permission \<times> sys" where
  "permission_of_arg \<sigma> permission g =
     (case permission of
        ByName n \<Rightarrow>
          new_Permission \<sigma>
            \<lparr>pp_id = None, pp_name = Some n, pp_guardName = Some g, pp_description = None,
             pp_createdAt = None, pp_updatedAt = None\<rparr>
      | ByEntity e \<Rightarrow> new_Permission \<sigma> (IPermission_as_Partial e))"

definition givePermissionTo ::
    "sys \<Rightarrow> subject \<Rightarrow> permission_arg \<Rightarrow> string option \<Rightarrow> subject \<times> sys" where
  "givePermissionTo \<sigma> this permission guardName =
     (let g = guard_param guardName;
          (perm, \<sigma>1) = permission_of_arg \<sigma> permission g
      in if \<not> hasPermission this (ByEntity (Permission_as_IPermission perm)) (Some g)
         then (this\<lparr>permissions := permissions this @ [perm]\<rparr>, \<sigma>1)
         else (this, \<sigma>1))"

definition revokePermissionTo :: "subject \<Rightarrow> permission_arg \<Rightarrow> string option \<Rightarrow> subject" where
  "revokePermissionTo this permission guardName =
     (let g = guard_param guardName;
          permissionName = permission_name permission
      in this\<lparr>permissions :=
                filter (\<lambda>p. \<not> (p_name p = permissionName \<and> p_guardName p = g)) (permissions this)\<rparr>)"

text \<open>The \<^verbatim>\<open>forEach\<close> of \<^verbatim>\<open>syncPermissions\<close>: one \<^verbatim>\<open>givePermissionTo\<close> per element,
  in order.\<close>

fun give_each :: "sys \<Rightarrow> subject \<Rightarrow> permission_arg list \<Rightarrow> string \<Rightarrow> subject \<times> sys" where
  "give_each \<sigma> this [] g = (this, \<sigma>)"
| "give_each \<sigma> this (x # xs) g =
     (let (this1, \<sigma>1) = givePermissionTo \<sigma> this x (Some g) in give_each \<sigma>1 this1 xs g)"

definition syncPermissions ::
    "sys \<Rightarrow> subject \<Rightarrow> permission_arg list \<Rightarrow> string option \<Rightarrow> subject \<times> sys" where
  "syncPermissions \<sigma> this perms guardName =
     (let g = guard_param guardName;
          this1 = this\<lparr>permissions := filter (\<lambda>p. p_guardName p \<noteq> g) (permissions this)\<rparr>
      in give_each \<sigma> this1 perms g)"

definition getDirectPermissions :: "subject \<Rightarrow> string option \<Rightarrow> Permission list" where
  "getDirectPermissions this guardName =
     (let g = guard_param guardName in filter (\<lambda>p. p_guardName p = g) (permissions this))"

text \<open>
  \<^verbatim>\<open>getAllPermissions\<close> merges into a \<^verbatim>\<open>Map\<close> keyed by name. A \<^verbatim>\<open>Map\<close> keeps
  its keys in the order of their first insertion and \<^verbatim>\<open>set\<close> on a present key replaces the
  value in place: this is \<open>AList.update\<close> on an association list. The result holds class
  instances and role permissions side by side, so it is a list of \<open>IPermission\<close>.
  \<open>rolePermissions\<close> and \<open>allPermissions\<close> are the two local constants of the method.
\<close>

definition rolePermissions :: "subject \<Rightarrow> string \<Rightarrow> IPermission list" where
  "rolePermissions this g =
     concat (map (\<lambda>role. case ir_permissions role of
                            None \<Rightarrow> []
                          | Some ps \<Rightarrow> filter (\<lambda>p. ip_guardName p = Some g) ps)
                 (roles this))"

definition allPermissions :: "subject \<Rightarrow> string \<Rightarrow> IPermission list" where
  "allPermissions this g =
     map Permission_as_IPermission (getDirectPermissions this (Some g)) @ rolePermissions this g"

definition getAllPermissions :: "subject \<Rightarrow> string option \<Rightarrow> IPermission list" where
  "getAllPermissions this guardName =
     (let g = guard_param guardName;
          uniquePermissions =
            foldl (\<lambda>m permission. AList.update (ip_name permission) permission m) []
              (allPermissions this g)
      in map snd uniquePermissions)"

section \<open>The Has-Roles mixin (traits/HasRoles.ts)\<close>

text \<open>Applied to the same subject, the mixin's \<^verbatim>\<open>removeRole\<close> filters the role list the
  permission queries read.\<close>

datatype role_arg = RoleByName string | RoleByEntity IRole

definition role_name :: "role_arg \<Rightarrow> string" where
  "role_name role = (case role of RoleByName n \<Rightarrow> n | RoleByEntity e \<Rightarrow> ir_name e)"

definition removeRole :: "subject \<Rightarrow> role_arg \<Rightarrow> string option \<Rightarrow> subject" where
  "removeRole this role guardName =
     (let g = guard_param guardName;
          roleName = role_name role
      in this\<lparr>roles := filter (\<lambda>r. \<not> (ir_name r = roleName \<and> ir_guardName r = Some g)) (roles this)\<rparr>)"

section \<open>Guard (guards/Guard.ts)\<close>

record Guard =
  g_name :: string
  g_permissions :: "Permission list"
  g_roles :: "Role list"

definition new_Guard :: "string \<Rightarrow> Guard" where
  "new_Guard name = \<lparr>g_name = name, g_permissions = [], g_roles = []\<rparr>"

text \<open>A value of type \<^verbatim>\<open>Role | IRole\<close>, inspected with \<^verbatim>\<open>instanceof Role\<close>.\<close>

datatype role_obj = RoleInstance Role | PlainRole IRole

definition as_Role :: "sys \<Rightarrow> role_obj \<Rightarrow> Role \<times> sys" where
  "as_Role \<sigma> obj =
     (case obj of RoleInstance r \<Rightarrow> (r, \<sigma>) | PlainRole d \<Rightarrow> new_Role \<sigma> (IRole_as_Partial d))"

definition Guard_hasPermission :: "sys \<Rightarrow> Guard \<Rightarrow> perm_obj \<Rightarrow> bool \<times> sys" where
  "Guard_hasPermission \<sigma> this permission =
     (let (perm, \<sigma>1) = as_Permission \<sigma> permission
      in (list_ex (\<lambda>p. Permission_equals p perm) (g_permissions this), \<sigma>1))"

definition Guard_addPermission :: "sys \<Rightarrow> Guard \<Rightarrow> perm_obj \<Rightarrow> Guard \<times> sys" where
  "Guard_addPermission \<sigma> this permission =
     (let (perm, \<sigma>1) = as_Permission \<sigma> permission;
          (present, \<sigma>2) = Guard_hasPermission \<sigma>1 this (Instance perm)
      in if \<not> present then (this\<lparr>g_permissions := g_permissions this @ [perm]\<rparr>, \<sigma>2)
         else (this, \<sigma>2))"

definition Guard_getPermission :: "Guard \<Rightarrow> string \<Rightarrow> Permission option" where
  "Guard_getPermission this name = find (\<lambda>p. p_name p = name) (g_permissions this)"

definition Guard_hasRole :: "sys \<Rightarrow> Guard \<Rightarrow> role_obj \<Rightarrow> bool \<times> sys" where
  "Guard_hasRole \<sigma> this role =
     (let (roleInstance, \<sigma>1) = as_Role \<sigma> role
      in (list_ex (\<lambda>r. Role_equals r roleInstance) (g_roles this), \<sigma>1))"

definition Guard_addRole :: "sys \<Rightarrow> Guard \<Rightarrow> role_obj \<Rightarrow> Guard \<times> sys" where
  "Guard_addRole \<sigma> this role =
     (let (roleInstance, \<sigma>1) = as_Role \<sigma> role;
          (present, \<sigma>2) = Guard_hasRole \<sigma>1 this (RoleInstance roleInstance)
      in if \<not> present then (this\<lparr>g_roles := g_roles this @ [roleInstance]\<rparr>, \<sigma>2)
         else (this, \<sigma>2))"

definition Guard_getRole :: "Guard \<Rightarrow> string \<Rightarrow> Role option" where
  "Guard_getRole this name = find (\<lambda>r. r_name r = name) (g_roles this)"

section \<open>The manager (PermissionManager.ts, exceptions/PermissionException.ts)\<close>

text \<open>The three exceptions, each carrying the missing name its message quotes.\<close>

datatype error =
    GuardNotFoundException string
  | PermissionNotFoundException string
  | RoleNotFoundException string

text \<open>
  A subject as the manager sees it (\<^verbatim>\<open>PermissionUser\<close>): an object with the two query
  methods, which may be any functions (the tests pass mocks). A custom check receives the
  subject, a name and the guard key.
\<close>

record PermissionUser =
  u_id :: string
  u_hasPermission :: "permission_arg \<Rightarrow> string \<Rightarrow> bool"
  u_hasRole :: "role_arg \<Rightarrow> string \<Rightarrow> bool"

type_synonym PermissionCheck = "PermissionUser \<Rightarrow> string \<Rightarrow> string \<Rightarrow> bool"

type_synonym RoleCheck = "PermissionUser \<Rightarrow> string \<Rightarrow> string \<Rightarrow> bool"

text \<open>
  \<open>PermissionManagerConfig\<close> is the interface, every option absent or present; \<open>config\<close>
  is the object the constructor builds by spreading the argument over the defaults
  (an option explicitly set to \<^verbatim>\<open>undefined\<close> is not modelled). The collaborators are
  opaque.
\<close>

record PermissionManagerConfig =
  opt_cacheEnabled :: "bool option"
  opt_cacheTtl :: "int option"
  opt_defaultGuard :: "string option"

record config =
  cacheEnabled :: bool
  cacheTtl :: int
  defaultGuard :: string

definition merge_config :: "PermissionManagerConfig \<Rightarrow> config" where
  "merge_config c =
     \<lparr>cacheEnabled = (case opt_cacheEnabled c of None \<Rightarrow> False | Some b \<Rightarrow> b),
      cacheTtl = (case opt_cacheTtl c of None \<Rightarrow> 3600 | Some t \<Rightarrow> t),
      defaultGuard = (case opt_defaultGuard c of None \<Rightarrow> ''web'' | Some g \<Rightarrow> g)\<rparr>"

definition config_as_argument :: "config \<Rightarrow> PermissionManagerConfig" where
  "config_as_argument c =
     \<lparr>opt_cacheEnabled = Some (cacheEnabled c), opt_cacheTtl = Some (cacheTtl c),
      opt_defaultGuard = Some (defaultGuard c)\<rparr>"

typedecl PermissionRepository

typedecl RoleRepository

typedecl GuardRepository

typedecl CacheService

typedecl EventDispatcher

record PermissionManagerDependencies =
  permissionRepository :: "PermissionRepository option"
  roleRepository :: "RoleRepository option"
  guardRepository :: "GuardRepository option"
  cacheService :: "CacheService option"
  eventDispatcher :: "EventDispatcher option"

definition no_dependencies :: PermissionManagerDependencies where
  "no_dependencies =
     \<lparr>permissionRepository = None, roleRepository = None, guardRepository = None,
      cacheService = None, eventDispatcher = None\<rparr>"

text \<open>
  Guards, managers, the \<^verbatim>\<open>Map\<close> a manager keeps in its field \<^verbatim>\<open>guards\<close> and the object
  in its field \<^verbatim>\<open>config\<close> are mutable objects held by reference: the map sends a name to
  a guard object; \<^verbatim>\<open>forGuard\<close> hands this manager's configuration object to the
  constructor, makes a new \<^verbatim>\<open>Map\<close> from this manager's map (copying the entries and not
  the guards), and assigns to a field of the new manager's configuration object. So all
  four live in a store, addressed by numbers. A \<open>PermissionManager_object\<close> is what the
  store holds for a manager: the addresses of the objects in its fields \<^verbatim>\<open>guards\<close> and
  \<^verbatim>\<open>config\<close>, and its other fields. The two maps of custom checks are created by the
  field initialisers and handed to no one, so they are held by value; permissions and roles
  inside a guard are held by value too.
\<close>

record PermissionManager_object =
  guards_at :: nat
  config_at :: nat
  permissionChecks_of :: "string \<rightharpoonup> PermissionCheck"
  roleChecks_of :: "string \<rightharpoonup> RoleCheck"
  dependencies_of :: PermissionManagerDependencies

record world =
  w_sys :: sys
  guard_heap :: "nat \<Rightarrow> Guard"
  guard_next :: nat
  map_heap :: "nat \<Rightarrow> (string \<rightharpoonup> nat)"
  config_heap :: "nat \<Rightarrow> config"
  manager_store :: "nat \<Rightarrow> PermissionManager_object"
  manager_next :: nat

text \<open>
  A manager as the code reads it: its fields, with the entries of the map in \<^verbatim>\<open>guards\<close>
  and the fields of the object in \<^verbatim>\<open>config\<close> read out of the store.
  \<open>manager_heap w this\<close> is the manager at address \<open>this\<close>.
\<close>

record PermissionManager =
  guards :: "string \<rightharpoonup> nat"
  config :: config
  customPermissionChecks :: "string \<rightharpoonup> PermissionCheck"
  customRoleChecks :: "string \<rightharpoonup> RoleCheck"
  dependencies :: PermissionManagerDependencies

definition manager_heap :: "world \<Rightarrow> nat \<Rightarrow> PermissionManager" where
  "manager_heap w this =
     (let obj = manager_store w this
      in \<lparr>guards = map_heap w (guards_at obj), config = config_heap w (config_at obj),
          customPermissionChecks = permissionChecks_of obj, customRoleChecks = roleChecks_of obj,
          dependencies = dependencies_of obj\<rparr>)"

text \<open>\<^verbatim>\<open>new Map(...)\<close> and an object literal yield an object no manager of the store refers
  to: an address above every address held in a field \<^verbatim>\<open>guards\<close>, respectively
  \<^verbatim>\<open>config\<close>.\<close>

definition fresh_map :: "world \<Rightarrow> nat" where
  "fresh_map w =
     fold (\<lambda>m a. max a (Suc (guards_at (manager_store w m)))) [0..<manager_next w] 0"

definition fresh_config :: "world \<Rightarrow> nat" where
  "fresh_config w =
     fold (\<lambda>m a. max a (Suc (config_at (manager_store w m)))) [0..<manager_next w] 0"

text \<open>\<^verbatim>\<open>this.guards.set(name, guard)\<close> writes into the map object the field refers to.\<close>

definition createGuard :: "world \<Rightarrow> nat \<Rightarrow> string \<Rightarrow> nat \<times> world" where
  "createGuard w this name =
     (let guard = guard_next w;
          w1 = w\<lparr>guard_heap := (guard_heap w)(guard := new_Guard name), guard_next := Suc guard\<rparr>;
          m = guards_at (manager_store w1 this);
          w2 = w1\<lparr>map_heap := (map_heap w1)(m := (map_heap w1 m)(name \<mapsto> guard))\<rparr>
      in (guard, w2))"

text \<open>The field initialisers create the three empty maps; the constructor body puts a new
  object, the argument spread over the defaults, in \<^verbatim>\<open>config\<close>, and creates the default
  guard, whose name it reads from that object. The argument is read once, by the spread:
  it is passed as the fields read.\<close>

definition new_PermissionManager ::
    "world \<Rightarrow> PermissionManagerConfig \<Rightarrow> PermissionManagerDependencies \<Rightarrow> nat \<times> world" where
  "new_PermissionManager w cfg deps =
     (let this = manager_next w;
          m = fresh_map w;
          c = fresh_config w;
          obj = \<lparr>guards_at = m, config_at = c,
                 permissionChecks_of = Map.empty, roleChecks_of = Map.empty,
                 dependencies_of = deps\<rparr>;
          w1 = w\<lparr>map_heap := (map_heap w)(m := Map.empty),
                 config_heap := (config_heap w)(c := merge_config cfg),
                 manager_store := (manager_store w)(this := obj), manager_next := Suc this\<rparr>;
          (guard, w2) = createGuard w1 this (defaultGuard (config (manager_heap w1 this)))
      in (this, w2))"

definition getGuard :: "world \<Rightarrow> nat \<Rightarrow> string \<Rightarrow> error + nat" where
  "getGuard w this name =
     (case guards (manager_heap w this) name of
        None \<Rightarrow> Inl (GuardNotFoundException name)
      | Some guard \<Rightarrow> Inr guard)"

definition getDefaultGuard :: "world \<Rightarrow> nat \<Rightarrow> error + nat" where
  "getDefaultGuard w this = getGuard w this (defaultGuard (config (manager_heap w this)))"

text \<open>\<^verbatim>\<open>guardName || this.config.defaultGuard!\<close>\<close>

definition resolve_guard :: "world \<Rightarrow> nat \<Rightarrow> string option \<Rightarrow> string" where
  "resolve_guard w this guardName = str_or guardName (defaultGuard (config (manager_heap w this)))"

definition createPermission ::
    "world \<Rightarrow> nat \<Rightarrow> string \<Rightarrow> string option \<Rightarrow> error + (Permission \<times> world)" where
  "createPermission w this name guardName =
     (case getGuard w this (resolve_guard w this guardName) of
        Inl e \<Rightarrow> Inl e
      | Inr guard \<Rightarrow>
          (let (permission, \<sigma>1) =
                 new_Permission (w_sys w)
                   \<lparr>pp_id = None, pp_name = Some name,
                    pp_guardName = Some (g_name (guard_heap w guard)), pp_description = None,
                    pp_createdAt = None, pp_updatedAt = None\<rparr>;
               (guard', \<sigma>2) = Guard_addPermission \<sigma>1 (guard_heap w guard) (Instance permission)
           in Inr (permission, w\<lparr>w_sys := \<sigma>2, guard_heap := (guard_heap w)(guard := guard')\<rparr>)))"

definition createRole ::
    "world \<Rightarrow> nat \<Rightarrow> string \<Rightarrow> string option \<Rightarrow> error + (Role \<times> world)" where
  "createRole w this name guardName =
     (case getGuard w this (resolve_guard w this guardName) of
        Inl e \<Rightarrow> Inl e
      | Inr guard \<Rightarrow>
          (let (role, \<sigma>1) =
                 new_Role (w_sys w)
                   \<lparr>pr_id = None, pr_name = Some name,
                    pr_guardName = Some (g_name (guard_heap w guard)), pr_description = None,
                    pr_permissions = None, pr_createdAt = None, pr_updatedAt = None\<rparr>;
               (guard', \<sigma>2) = Guard_addRole \<sigma>1 (guard_heap w guard) (RoleInstance role)
           in Inr (role, w\<lparr>w_sys := \<sigma>2, guard_heap := (guard_heap w)(guard := guard')\<rparr>)))"

definition getPermission :: "world \<Rightarrow> nat \<Rightarrow> string \<Rightarrow> string option \<Rightarrow> error + Permission" where
  "getPermission w this name guardName =
     (case getGuard w this (resolve_guard w this guardName) of
        Inl e \<Rightarrow> Inl e
      | Inr guard \<Rightarrow>
          (case Guard_getPermission (guard_heap w guard) name of
             None \<Rightarrow> Inl (PermissionNotFoundException name)
           | Some permission \<Rightarrow> Inr permission))"

definition getRole :: "world \<Rightarrow> nat \<Rightarrow> string \<Rightarrow> string option \<Rightarrow> error + Role" where
  "getRole w this name guardName =
     (case getGuard w this (resolve_guard w this guardName) of
        Inl e \<Rightarrow> Inl e
      | Inr guard \<Rightarrow>
          (case Guard_getRole (guard_heap w guard) name of
             None \<Rightarrow> Inl (RoleNotFoundException name)
           | Some role \<Rightarrow> Inr role))"

definition Manager_getAllPermissions ::
    "world \<Rightarrow> nat \<Rightarrow> string option \<Rightarrow> error + Permission list" where
  "Manager_getAllPermissions w this guardName =
     (case getGuard w this (resolve_guard w this guardName) of
        Inl e \<Rightarrow> Inl e
      | Inr guard \<Rightarrow> Inr (g_permissions (guard_heap w guard)))"

definition Manager_getAllRoles :: "world \<Rightarrow> nat \<Rightarrow> string option \<Rightarrow> error + Role list" where
  "Manager_getAllRoles w this guardName =
     (case getGuard w this (resolve_guard w this guardName) of
        Inl e \<Rightarrow> Inl e
      | Inr guard \<Rightarrow> Inr (g_roles (guard_heap w guard)))"

definition registerPermissionCheck :: "world \<Rightarrow> nat \<Rightarrow> string \<Rightarrow> PermissionCheck \<Rightarrow> world" where
  "registerPermissionCheck w this name check =
     (let obj = manager_store w this
      in w\<lparr>manager_store := (manager_store w)
             (this := obj\<lparr>permissionChecks_of := (permissionChecks_of obj)(name \<mapsto> check)\<rparr>)\<rparr>)"

definition registerRoleCheck :: "world \<Rightarrow> nat \<Rightarrow> string \<Rightarrow> RoleCheck \<Rightarrow> world" where
  "registerRoleCheck w this name check =
     (let obj = manager_store w this
      in w\<lparr>manager_store := (manager_store w)
             (this := obj\<lparr>roleChecks_of := (roleChecks_of obj)(name \<mapsto> check)\<rparr>)\<rparr>)"

text \<open>
  \<open>checkPermission\<close> and \<open>checkRole\<close> return the boolean together with the call they made
  themselves: the registered check with the name and the guard key, or the subject's own
  method with the argument as it was given and the guard key.
\<close>

datatype call =
    CustomPermissionCheck string string
  | Subject_hasPermission permission_arg string
  | CustomRoleCheck string string
  | Subject_hasRole role_arg string

definition checkPermission ::
    "world \<Rightarrow> nat \<Rightarrow> PermissionUser \<Rightarrow> permission_arg \<Rightarrow> string option \<Rightarrow> bool \<times> call" where
  "checkPermission w this user permission guardName =
     (let guard = resolve_guard w this guardName
      in case customPermissionChecks (manager_heap w this) guard of
           Some customCheck \<Rightarrow>
             (customCheck user (permission_name permission) guard,
              CustomPermissionCheck (permission_name permission) guard)
         | None \<Rightarrow> (u_hasPermission user permission guard, Subject_hasPermission permission guard))"

definition checkRole ::
    "world \<Rightarrow> nat \<Rightarrow> PermissionUser \<Rightarrow> role_arg \<Rightarrow> string option \<Rightarrow> bool \<times> call" where
  "checkRole w this user role guardName =
     (let guard = resolve_guard w this guardName
      in case customRoleChecks (manager_heap w this) guard of
           Some customCheck \<Rightarrow>
             (customCheck user (role_name role) guard, CustomRoleCheck (role_name role) guard)
         | None \<Rightarrow> (u_hasRole user role guard, Subject_hasRole role guard))"

text \<open>\<open>forGuard\<close>: the constructor runs on the configuration object of this manager and
  with no collaborators; then \<^verbatim>\<open>manager.guards = new Map(this.guards)\<close> puts a new map
  object, with the entries of this manager's map, in the new manager's field, and
  \<^verbatim>\<open>manager.config.defaultGuard = guardName\<close> writes into the object the new manager's
  field \<^verbatim>\<open>config\<close> refers to.\<close>

definition forGuard :: "world \<Rightarrow> nat \<Rightarrow> string \<Rightarrow> nat \<times> world" where
  "forGuard w this guardName =
     (let (manager, w1) =
            new_PermissionManager w (config_as_argument (config (manager_heap w this)))
              no_dependencies;
          m = fresh_map w1;
          w2 = w1\<lparr>map_heap := (map_heap w1)(m := map_heap w1 (guards_at (manager_store w1 this))),
                 manager_store := (manager_store w1)
                   (manager := (manager_store w1 manager)\<lparr>guards_at := m\<rparr>)\<rparr>;
          c = config_at (manager_store w2 manager);
          w3 = w2\<lparr>config_heap := (config_heap w2)
                   (c := (config_heap w2 c)\<lparr>defaultGuard := guardName\<rparr>)\<rparr>
      in (manager, w3))"

section \<open>The mutating methods as calls that return or raise\<close>

text \<open>
  A call of a method returns a value or raises an exception: its outcome is a value of
  type \<open>error + 'a\<close>, as for the lookups of the manager. When a method calls another one,
  an exception of the callee leaves the caller at once: \<open>and_then\<close>. The methods whose
  names begin with \<^verbatim>\<open>add\<close>, \<^verbatim>\<open>remove\<close> or \<^verbatim>\<open>sync\<close>, and \<^verbatim>\<open>givePermissionTo\<close>,
  \<^verbatim>\<open>revokePermissionTo\<close> and \<^verbatim>\<open>assignRole\<close>, which the \<^verbatim>\<open>sync\<close> methods call or
  mirror, follow, each with the constructors and queries it calls.
\<close>

definition and_then :: "error + 'a \<Rightarrow> ('a \<Rightarrow> error + 'b) \<Rightarrow> error + 'b" where
  "and_then outcome rest = (case outcome of Inl e \<Rightarrow> Inl e | Inr v \<Rightarrow> rest v)"

text \<open>The constructors assign the fields and contain no \<^verbatim>\<open>throw\<close>.\<close>

definition new_Permission_call :: "sys \<Rightarrow> PartialPermission \<Rightarrow> error + (Permission \<times> sys)" where
  "new_Permission_call \<sigma> data = Inr (new_Permission \<sigma> data)"

definition as_Permission_call :: "sys \<Rightarrow> perm_obj \<Rightarrow> error + (Permission \<times> sys)" where
  "as_Permission_call \<sigma> obj =
     (case obj of
        Instance p \<Rightarrow> Inr (p, \<sigma>)
      | Plain e \<Rightarrow> new_Permission_call \<sigma> (IPermission_as_Partial e))"

fun map_as_Permission_call :: "sys \<Rightarrow> perm_obj list \<Rightarrow> error + (Permission list \<times> sys)" where
  "map_as_Permission_call \<sigma> [] = Inr ([], \<sigma>)"
| "map_as_Permission_call \<sigma> (x # xs) =
     and_then (as_Permission_call \<sigma> x) (\<lambda>(p, \<sigma>1).
     and_then (map_as_Permission_call \<sigma>1 xs) (\<lambda>(ps, \<sigma>2).
     Inr (p # ps, \<sigma>2)))"

definition new_Role_call :: "sys \<Rightarrow> PartialRole \<Rightarrow> error + (Role \<times> sys)" where
  "new_Role_call \<sigma> data =
     (let (i, \<sigma>1) = id_or_generate \<sigma> (pr_id data);
          n = str_or (pr_name data) [];
          g = str_or (pr_guardName data) ''web'';
          d = str_or_undefined (pr_description data)
      in and_then
           (map_as_Permission_call \<sigma>1 (case pr_permissions data of None \<Rightarrow> [] | Some xs \<Rightarrow> xs))
           (\<lambda>(ps, \<sigma>2).
              let (c, \<sigma>3) = date_or_now \<sigma>2 (pr_createdAt data);
                  (u, \<sigma>4) = date_or_now \<sigma>3 (pr_updatedAt data)
              in Inr (\<lparr>r_id = i, r_name = n, r_guardName = g, r_description = d,
                       r_permissions = ps, r_createdAt = c, r_updatedAt = u\<rparr>, \<sigma>4)))"

definition as_Role_call :: "sys \<Rightarrow> role_obj \<Rightarrow> error + (Role \<times> sys)" where
  "as_Role_call \<sigma> obj =
     (case obj of
        RoleInstance r \<Rightarrow> Inr (r, \<sigma>)
      | PlainRole d \<Rightarrow> new_Role_call \<sigma> (IRole_as_Partial d))"

subsection \<open>Role (models/Role.ts)\<close>

definition Role_hasPermission_call :: "sys \<Rightarrow> Role \<Rightarrow> perm_obj \<Rightarrow> error + (bool \<times> sys)" where
  "Role_hasPermission_call \<sigma> this permission =
     and_then (as_Permission_call \<sigma> permission) (\<lambda>(perm, \<sigma>1).
     Inr (list_ex (\<lambda>p. Permission_equals p perm) (r_permissions this), \<sigma>1))"

definition Role_addPermission_call :: "sys \<Rightarrow> Role \<Rightarrow> perm_obj \<Rightarrow> error + (Role \<times> sys)" where
  "Role_addPermission_call \<sigma> this permission =
     and_then (as_Permission_call \<sigma> permission) (\<lambda>(perm, \<sigma>1).
     and_then (Role_hasPermission_call \<sigma>1 this (Instance perm)) (\<lambda>(present, \<sigma>2).
     if \<not> present then Inr (this\<lparr>r_permissions := r_permissions this @ [perm]\<rparr>, \<sigma>2)
     else Inr (this, \<sigma>2)))"

definition Role_removePermission_call :: "sys \<Rightarrow> Role \<Rightarrow> perm_obj \<Rightarrow> error + (Role \<times> sys)" where
  "Role_removePermission_call \<sigma> this permission =
     and_then (as_Permission_call \<sigma> permission) (\<lambda>(perm, \<sigma>1).
     Inr (this\<lparr>r_permissions := filter (\<lambda>p. \<not> Permission_equals p perm) (r_permissions this)\<rparr>,
          \<sigma>1))"

definition Role_syncPermissions_call ::
    "sys \<Rightarrow> Role \<Rightarrow> perm_obj list \<Rightarrow> error + (Role \<times> sys)" where
  "Role_syncPermissions_call \<sigma> this perms =
     and_then (map_as_Permission_call \<sigma> perms) (\<lambda>(ps, \<sigma>1).
     Inr (this\<lparr>r_permissions := ps\<rparr>, \<sigma>1))"

subsection \<open>Guard (guards/Guard.ts)\<close>

definition Guard_hasPermission_call :: "sys \<Rightarrow> Guard \<Rightarrow> perm_obj \<Rightarrow> error + (bool \<times> sys)" where
  "Guard_hasPermission_call \<sigma> this permission =
     and_then (as_Permission_call \<sigma> permission) (\<lambda>(perm, \<sigma>1).
     Inr (list_ex (\<lambda>p. Permission_equals p perm) (g_permissions this), \<sigma>1))"

definition Guard_addPermission_call :: "sys \<Rightarrow> Guard \<Rightarrow> perm_obj \<Rightarrow> error + (Guard \<times> sys)" where
  "Guard_addPermission_call \<sigma> this permission =
     and_then (as_Permission_call \<sigma> permission) (\<lambda>(perm, \<sigma>1).
     and_then (Guard_hasPermission_call \<sigma>1 this (Instance perm)) (\<lambda>(present, \<sigma>2).
     if \<not> present then Inr (this\<lparr>g_permissions := g_permissions this @ [perm]\<rparr>, \<sigma>2)
     else Inr (this, \<sigma>2)))"

definition Guard_removePermission_call ::
    "sys \<Rightarrow> Guard \<Rightarrow> perm_obj \<Rightarrow> error + (Guard \<times> sys)" where
  "Guard_removePermission_call \<sigma> this permission =
     and_then (as_Permission_call \<sigma> permission) (\<lambda>(perm, \<sigma>1).
     Inr (this\<lparr>g_permissions := filter (\<lambda>p. \<not> Permission_equals p perm) (g_permissions this)\<rparr>,
          \<sigma>1))"

definition Guard_hasRole_call :: "sys \<Rightarrow> Guard \<Rightarrow> role_obj \<Rightarrow> error + (bool \<times> sys)" where
  "Guard_hasRole_call \<sigma> this role =
     and_then (as_Role_call \<sigma> role) (\<lambda>(roleInstance, \<sigma>1).
     Inr (list_ex (\<lambda>r. Role_equals r roleInstance) (g_roles this), \<sigma>1))"

definition Guard_addRole_call :: "sys \<Rightarrow> Guard \<Rightarrow> role_obj \<Rightarrow> error + (Guard \<times> sys)" where
  "Guard_addRole_call \<sigma> this role =
     and_then (as_Role_call \<sigma> role) (\<lambda>(roleInstance, \<sigma>1).
     and_then (Guard_hasRole_call \<sigma>1 this (RoleInstance roleInstance)) (\<lambda>(present, \<sigma>2).
     if \<not> present then Inr (this\<lparr>g_roles := g_roles this @ [roleInstance]\<rparr>, \<sigma>2)
     else Inr (this, \<sigma>2)))"

definition Guard_removeRole_call :: "sys \<Rightarrow> Guard \<Rightarrow> role_obj \<Rightarrow> error + (Guard \<times> sys)" where
  "Guard_removeRole_call \<sigma> this role =
     and_then (as_Role_call \<sigma> role) (\<lambda>(roleInstance, \<sigma>1).
     Inr (this\<lparr>g_roles := filter (\<lambda>r. \<not> Role_equals r roleInstance) (g_roles this)\<rparr>, \<sigma>1))"

subsection \<open>The Has-Permissions mixin (traits/HasPermissions.ts)\<close>

definition hasPermission_call :: "subject \<Rightarrow> permission_arg \<Rightarrow> string option \<Rightarrow> error + bool" where
  "hasPermission_call this permission guardName =
     (let g = guard_param guardName;
          permissionName = permission_name permission
      in if list_ex (\<lambda>p. p_name p = permissionName \<and> p_guardName p = g) (permissions this)
         then Inr True
         else Inr (list_ex (\<lambda>role. role_has_permission role permissionName g) (roles this)))"

definition permission_of_arg_call ::
    "sys \<Rightarrow> permission_arg \<Rightarrow> string \<Rightarrow> error + (Permission \<times> sys)" where
  "permission_of_arg_call \<sigma> permission g =
     (case permission of
        ByName n \<Rightarrow>
          new_Permission_call \<sigma>
            \<lparr>pp_id = None, pp_name = Some n, pp_guardName = Some g, pp_description = None,
             pp_createdAt = None, pp_updatedAt = None\<rparr>
      | ByEntity e \<Rightarrow> new_Permission_call \<sigma> (IPermission_as_Partial e))"

definition givePermissionTo_call ::
    "sys \<Rightarrow> subject \<Rightarrow> permission_arg \<Rightarrow> string option \<Rightarrow> error + (subject \<times> sys)" where
  "givePermissionTo_call \<sigma> this permission guardName =
     (let g = guard_param guardName
      in and_then (permission_of_arg_call \<sigma> permission g) (\<lambda>(perm, \<sigma>1).
         and_then (hasPermission_call this (ByEntity (Permission_as_IPermission perm)) (Some g))
           (\<lambda>held.
         if \<not> held then Inr (this\<lparr>permissions := permissions this @ [perm]\<rparr>, \<sigma>1)
         else Inr (this, \<sigma>1))))"

definition revokePermissionTo_call ::
    "subject \<Rightarrow> permission_arg \<Rightarrow> string option \<Rightarrow> error + subject" where
  "revokePermissionTo_call this permission guardName =
     (let g = guard_param guardName;
          permissionName = permission_name permission
      in Inr (this\<lparr>permissions :=
                filter (\<lambda>p. \<not> (p_name p = permissionName \<and> p_guardName p = g))
                  (permissions this)\<rparr>))"

fun give_each_call ::
    "sys \<Rightarrow> subject \<Rightarrow> permission_arg list \<Rightarrow> string \<Rightarrow> error + (subject \<times> sys)" where
  "give_each_call \<sigma> this [] g = Inr (this, \<sigma>)"
| "give_each_call \<sigma> this (x # xs) g =
     and_then (givePermissionTo_call \<sigma> this x (Some g)) (\<lambda>(this1, \<sigma>1).
     give_each_call \<sigma>1 this1 xs g)"

definition syncPermissions_call ::
    "sys \<Rightarrow> subject \<Rightarrow> permission_arg list \<Rightarrow> string option \<Rightarrow> error + (subject \<times> sys)" where
  "syncPermissions_call \<sigma> this perms guardName =
     (let g = guard_param guardName;
          this1 = this\<lparr>permissions := filter (\<lambda>p. p_guardName p \<noteq> g) (permissions this)\<rparr>
      in give_each_call \<sigma> this1 perms g)"

subsection \<open>The Has-Roles mixin (traits/HasRoles.ts)\<close>

text \<open>The mixin by itself: its field \<^verbatim>\<open>roles\<close> holds class instances. A \<^verbatim>\<open>Role\<close> passed
  where an \<^verbatim>\<open>IRole\<close> is expected is read through the interface.\<close>

record HasRolesTrait =
  hr_roles :: "Role list"

definition Role_as_IRole :: "Role \<Rightarrow> IRole" where
  "Role_as_IRole r =
     \<lparr>ir_id = r_id r, ir_name = r_name r, ir_guardName = Some (r_guardName r),
      ir_description = r_description r,
      ir_permissions = Some (map Permission_as_IPermission (r_permissions r)),
      ir_createdAt = r_createdAt r, ir_updatedAt = r_updatedAt r\<rparr>"

definition hasRole_call :: "HasRolesTrait \<Rightarrow> role_arg \<Rightarrow> string option \<Rightarrow> error + bool" where
  "hasRole_call this role guardName =
     (let g = guard_param guardName;
          roleName = role_name role
      in Inr (list_ex (\<lambda>r. r_name r = roleName \<and> r_guardName r = g) (hr_roles this)))"

definition role_of_arg_call :: "sys \<Rightarrow> role_arg \<Rightarrow> string \<Rightarrow> error + (Role \<times> sys)" where
  "role_of_arg_call \<sigma> role g =
     (case role of
        RoleByName n \<Rightarrow>
          new_Role_call \<sigma>
            \<lparr>pr_id = None, pr_name = Some n, pr_guardName = Some g, pr_description = None,
             pr_permissions = None, pr_createdAt = None, pr_updatedAt = None\<rparr>
      | RoleByEntity e \<Rightarrow> new_Role_call \<sigma> (IRole_as_Partial e))"

definition assignRole_call ::
    "sys \<Rightarrow> HasRolesTrait \<Rightarrow> role_arg \<Rightarrow> string option \<Rightarrow> error + (HasRolesTrait \<times> sys)" where
  "assignRole_call \<sigma> this role guardName =
     (let g = guard_param guardName
      in and_then (role_of_arg_call \<sigma> role g) (\<lambda>(roleInstance, \<sigma>1).
         and_then (hasRole_call this (RoleByEntity (Role_as_IRole roleInstance)) (Some g))
           (\<lambda>held.
         if \<not> held then Inr (this\<lparr>hr_roles := hr_roles this @ [roleInstance]\<rparr>, \<sigma>1)
         else Inr (this, \<sigma>1))))"

definition removeRole_call :: "HasRolesTrait \<Rightarrow> role_arg \<Rightarrow> string option \<Rightarrow> error + HasRolesTrait" where
  "removeRole_call this role guardName =
     (let g = guard_param guardName;
          roleName = role_name role
      in Inr (this\<lparr>hr_roles :=
                filter (\<lambda>r. \<not> (r_name r = roleName \<and> r_guardName r = g)) (hr_roles this)\<rparr>))"

fun assign_each_call ::
    "sys \<Rightarrow> HasRolesTrait \<Rightarrow> role_arg list \<Rightarrow> string \<Rightarrow> error + (HasRolesTrait \<times> sys)" where
  "assign_each_call \<sigma> this [] g = Inr (this, \<sigma>)"
| "assign_each_call \<sigma> this (x # xs) g =
     and_then (assignRole_call \<sigma> this x (Some g)) (\<lambda>(this1, \<sigma>1).
     assign_each_call \<sigma>1 this1 xs g)"

definition syncRoles_call ::
    "sys \<Rightarrow> HasRolesTrait \<Rightarrow> role_arg list \<Rightarrow> string option \<Rightarrow> error + (HasRolesTrait \<times> sys)" where
  "syncRoles_call \<sigma> this rs guardName =
     (let g = guard_param guardName;
          this1 = this\<lparr>hr_roles := filter (\<lambda>r. r_guardName r \<noteq> g) (hr_roles this)\<rparr>
      in assign_each_call \<sigma> this1 rs g)"

section \<open>Invariants\<close>

text \<open>An association list all of whose keys are the names of their values: the invariant
  of the map \<^verbatim>\<open>uniquePermissions\<close>.\<close>

definition name_keyed :: "(string \<times> IPermission) list \<Rightarrow> bool" where
  "name_keyed al \<longleftrightarrow> (\<forall>(k, v) \<in> set al. k = ip_name v)"

text \<open>What the constructors establish: a non-empty guard name, no empty description and
  both dates present, for a role also in each of its permissions.\<close>

definition Permission_inv :: "Permission \<Rightarrow> bool" where
  "Permission_inv p \<longleftrightarrow>
     p_guardName p \<noteq> [] \<and> p_description p \<noteq> Some [] \<and> p_createdAt p \<noteq> None
     \<and> p_updatedAt p \<noteq> None"

definition Role_inv :: "Role \<Rightarrow> bool" where
  "Role_inv r \<longleftrightarrow>
     r_guardName r \<noteq> [] \<and> r_description r \<noteq> Some [] \<and> r_createdAt r \<noteq> None
     \<and> r_updatedAt r \<noteq> None \<and> list_all Permission_inv (r_permissions r)"

section \<open>Scenarios\<close>

text \<open>The concrete values the closed instances below are evaluated on: a world whose
  random source and clock are constant, the permissions and the role \<^verbatim>\<open>admin\<close> of the
  usage scenario, and a subject that was assigned the role and holds no direct permission.\<close>

definition sys0 :: sys where
  "sys0 = \<lparr>random_src = sconst ''0.4fzyo82mvyr'', clock = sconst 1700000000000\<rparr>"

definition edit_users :: IPermission where
  "edit_users =
     \<lparr>ip_id = ''p1'', ip_name = ''edit-users'', ip_guardName = Some ''web'',
      ip_description = None, ip_createdAt = Some 1, ip_updatedAt = Some 1\<rparr>"

definition delete_users :: IPermission where
  "delete_users =
     \<lparr>ip_id = ''p2'', ip_name = ''delete-users'', ip_guardName = Some ''web'',
      ip_description = None, ip_createdAt = Some 2, ip_updatedAt = Some 2\<rparr>"

definition admin :: IRole where
  "admin =
     \<lparr>ir_id = ''r1'', ir_name = ''admin'', ir_guardName = Some ''web'', ir_description = None,
      ir_permissions = Some [edit_users, delete_users], ir_createdAt = Some 3,
      ir_updatedAt = Some 3\<rparr>"

definition subject1 :: subject where
  "subject1 = \<lparr>permissions = [], roles = [admin]\<rparr>"

definition subject0 :: subject where
  "subject0 = \<lparr>permissions = [], roles = []\<rparr>"

definition api_edit :: IPermission where
  "api_edit =
     \<lparr>ip_id = ''p7'', ip_name = ''edit-users'', ip_guardName = Some ''api'',
      ip_description = None, ip_createdAt = Some 5, ip_updatedAt = Some 5\<rparr>"

definition perm_A :: Permission where
  "perm_A =
     \<lparr>p_id = ''a'', p_name = ''A'', p_guardName = ''web'', p_description = None,
      p_createdAt = Some 10, p_updatedAt = Some 10\<rparr>"

definition perm_B :: Permission where
  "perm_B =
     \<lparr>p_id = ''b'', p_name = ''B'', p_guardName = ''api'', p_description = None,
      p_createdAt = Some 11, p_updatedAt = Some 11\<rparr>"

definition subject_AB :: subject where
  "subject_AB = \<lparr>permissions = [perm_A, perm_B], roles = []\<rparr>"

definition subject_AB_admin :: subject where
  "subject_AB_admin = \<lparr>permissions = [perm_A, perm_B], roles = [admin]\<rparr>"

definition direct_edit :: Permission where
  "direct_edit =
     \<lparr>p_id = ''d1'', p_name = ''edit-users'', p_guardName = ''web'',
      p_description = Some ''granted directly'', p_createdAt = Some 20, p_updatedAt = Some 20\<rparr>"

definition subject2 :: subject where
  "subject2 = \<lparr>permissions = [direct_edit], roles = [admin]\<rparr>"

text \<open>A world in which the first \<^verbatim>\<open>Math.random()\<close> yields \<open>0\<close>, printed \<^verbatim>\<open>"0"\<close> in base
  36, and a constructor argument that gives a name only.\<close>

definition sys_zero :: sys where
  "sys_zero = \<lparr>random_src = ''0'' ## sconst ''0.4fzyo82mvyr'', clock = sconst 1700000000000\<rparr>"

definition named_x :: PartialPermission where
  "named_x =
     \<lparr>pp_id = None, pp_name = Some ''x'', pp_guardName = None, pp_description = None,
      pp_createdAt = None, pp_updatedAt = None\<rparr>"

definition admin_data :: PartialRole where
  "admin_data =
     \<lparr>pr_id = None, pr_name = Some ''admin'', pr_guardName = None, pr_description = None,
      pr_permissions = Some [Plain edit_users, Plain delete_users], pr_createdAt = None,
      pr_updatedAt = None\<rparr>"

text \<open>A world with nothing allocated, the world after \<^verbatim>\<open>new PermissionManager()\<close>
  (the manager is at address 0 and owns the guard \<^verbatim>\<open>web\<close>), a subject whose own queries
  answer false, and a custom check that answers true, registered under \<^verbatim>\<open>custom\<close> or
  under the empty key.\<close>

definition no_config :: PermissionManagerConfig where
  "no_config = \<lparr>opt_cacheEnabled = None, opt_cacheTtl = None, opt_defaultGuard = None\<rparr>"

definition blank_manager :: PermissionManager_object where
  "blank_manager =
     \<lparr>guards_at = 0, config_at = 0, permissionChecks_of = Map.empty,
      roleChecks_of = Map.empty, dependencies_of = no_dependencies\<rparr>"

definition world0 :: world where
  "world0 =
     \<lparr>w_sys = sys0, guard_heap = (\<lambda>_. new_Guard []), guard_next = 0,
      map_heap = (\<lambda>_. Map.empty), config_heap = (\<lambda>_. merge_config no_config),
      manager_store = (\<lambda>_. blank_manager), manager_next = 0\<rparr>"

definition world1 :: world where
  "world1 = snd (new_PermissionManager world0 no_config no_dependencies)"

definition always_true :: PermissionCheck where
  "always_true user name guard = True"

definition user0 :: PermissionUser where
  "user0 = \<lparr>u_id = ''1'', u_hasPermission = (\<lambda>permission guard. False),
             u_hasRole = (\<lambda>role guard. False)\<rparr>"

definition world_custom :: world where
  "world_custom = registerPermissionCheck world1 0 ''custom'' always_true"

definition world_empty_key :: world where
  "world_empty_key = registerPermissionCheck world1 0 [] always_true"

section \<open>Basic facts\<close>

lemma guard_param_simps [simp]:
  "guard_param (Some g) = g" "guard_param None = ''web''"
  by (simp_all add: guard_param_def)

lemma permission_name_simps [simp]:
  "permission_name (ByName n) = n" "permission_name (ByEntity e) = ip_name e"
  by (simp_all add: permission_name_def)

lemma ip_name_as_IPermission [simp]:
  "ip_name (Permission_as_IPermission p) = p_name p"
  by (simp add: Permission_as_IPermission_def)

lemma hasPermission_name_only:
  "hasPermission s x g = hasPermission s (ByName (permission_name x)) (Some (guard_param g))"
  by (simp add: hasPermission_def)

lemma role_has_permission_iff:
  "role_has_permission r n g \<longleftrightarrow>
   (\<exists>ps. ir_permissions r = Some ps \<and> (\<exists>p \<in> set ps. ip_name p = n \<and> ip_guardName p = Some g))"
  by (cases "ir_permissions r") (simp_all add: role_has_permission_def list_ex_iff)

lemma hasPermission_iff:
  "hasPermission s x g \<longleftrightarrow>
     (\<exists>p \<in> set (permissions s). p_name p = permission_name x \<and> p_guardName p = guard_param g) \<or>
     (\<exists>r \<in> set (roles s). role_has_permission r (permission_name x) (guard_param g))"
  unfolding hasPermission_def Let_def list_ex_iff by auto

lemma hasPermission_role_guard:
  "hasPermission (s\<lparr>roles := map (\<lambda>r. r\<lparr>ir_guardName := rg r\<rparr>) (roles s)\<rparr>) x g
     = hasPermission s x g"
  unfolding hasPermission_iff by (simp add: Bex_def role_has_permission_def)

lemma permission_of_arg_name [simp]:
  "p_name (fst (permission_of_arg \<sigma> x g)) = permission_name x"
  by (cases x) (simp_all add: permission_of_arg_def new_Permission_def
      IPermission_as_Partial_def str_or_def split_beta Let_def)

lemma givePermissionTo_cases:
  "fst (givePermissionTo \<sigma> s x g) =
     (if hasPermission s (ByName (permission_name x)) (Some (guard_param g)) then s
      else s\<lparr>permissions := permissions s @ [fst (permission_of_arg \<sigma> x (guard_param g))]\<rparr>)"
proof -
  have "hasPermission s (ByEntity (Permission_as_IPermission
            (fst (permission_of_arg \<sigma> x (guard_param g))))) (Some (guard_param g))
      = hasPermission s (ByName (permission_name x)) (Some (guard_param g))"
    by (subst hasPermission_name_only) simp
  then show ?thesis
    by (simp add: givePermissionTo_def Let_def split_beta)
qed

lemma subject1_admin_holds:
  "role_has_permission admin ''edit-users'' ''web''"
  by (simp add: role_has_permission_def admin_def edit_users_def delete_users_def)

section \<open>Membership queries of the Has-Permissions mixin\<close>

text \<open>
  C1. For every subject, every name \<open>n\<close>, every entity \<open>e\<close> and every guard name \<open>g\<close>,
  \<open>hasPermission\<close> under \<open>g\<close> is true exactly when a direct permission has the name and
  the guard name \<open>g\<close>, or some assigned role holds a permission with the name and the guard
  name \<open>g\<close>; for an entity the name is its field \<^verbatim>\<open>name\<close>, and nothing else of it is read:
  the result is the one for the bare name. An omitted guard is \<^verbatim>\<open>'web'\<close>. The guard names
  of the roles themselves play no part: overwriting them arbitrarily leaves the result
  unchanged.
\<close>

theorem hasPermission_characterisation:
  "(hasPermission s (ByName n) (Some g) \<longleftrightarrow>
     (\<exists>p \<in> set (permissions s). p_name p = n \<and> p_guardName p = g) \<or>
     (\<exists>r \<in> set (roles s). \<exists>ps. ir_permissions r = Some ps \<and>
        (\<exists>p \<in> set ps. ip_name p = n \<and> ip_guardName p = Some g)))
   \<and> (hasPermission s (ByEntity e) (Some g) \<longleftrightarrow>
     (\<exists>p \<in> set (permissions s). p_name p = ip_name e \<and> p_guardName p = g) \<or>
     (\<exists>r \<in> set (roles s). \<exists>ps. ir_permissions r = Some ps \<and>
        (\<exists>p \<in> set ps. ip_name p = ip_name e \<and> ip_guardName p = Some g)))
   \<and> hasPermission s x None = hasPermission s x (Some ''web'')
   \<and> hasPermission s (ByEntity e) go = hasPermission s (ByName (ip_name e)) go
   \<and> hasPermission (s\<lparr>roles := map (\<lambda>r. r\<lparr>ir_guardName := rg r\<rparr>) (roles s)\<rparr>) x go
       = hasPermission s x go"
proof (intro conjI)
  show "hasPermission s (ByName n) (Some g) \<longleftrightarrow>
     (\<exists>p \<in> set (permissions s). p_name p = n \<and> p_guardName p = g) \<or>
     (\<exists>r \<in> set (roles s). \<exists>ps. ir_permissions r = Some ps \<and>
        (\<exists>p \<in> set ps. ip_name p = n \<and> ip_guardName p = Some g))"
    by (simp add: hasPermission_iff role_has_permission_iff)
  show "hasPermission s (ByEntity e) (Some g) \<longleftrightarrow>
     (\<exists>p \<in> set (permissions s). p_name p = ip_name e \<and> p_guardName p = g) \<or>
     (\<exists>r \<in> set (roles s). \<exists>ps. ir_permissions r = Some ps \<and>
        (\<exists>p \<in> set ps. ip_name p = ip_name e \<and> ip_guardName p = Some g))"
    by (simp add: hasPermission_iff role_has_permission_iff)
  show "hasPermission s x None = hasPermission s x (Some ''web'')"
    by (simp add: hasPermission_def)
  show "hasPermission s (ByEntity e) go = hasPermission s (ByName (ip_name e)) go"
    by (simp add: hasPermission_def)
  show "hasPermission (s\<lparr>roles := map (\<lambda>r. r\<lparr>ir_guardName := rg r\<rparr>) (roles s)\<rparr>) x go
       = hasPermission s x go"
    by (rule hasPermission_role_guard)
qed

text \<open>The scenarios: the subject assigned \<^verbatim>\<open>admin\<close> holds \<^verbatim>\<open>edit-users\<close> under the
  default guard and not under \<^verbatim>\<open>api\<close>, and the entity is looked up by its name; the
  subject holding \<^verbatim>\<open>B\<close> directly under \<^verbatim>\<open>api\<close> holds it under that guard and under no
  other.\<close>

theorem hasPermission_characterisation_witness:
  "hasPermission subject1 (ByName ''edit-users'') None
   \<and> hasPermission subject1 (ByName ''edit-users'') (Some ''web'')
   \<and> \<not> hasPermission subject1 (ByName ''edit-users'') (Some ''api'')
   \<and> hasPermission subject1 (ByEntity delete_users) None
   \<and> hasPermission subject_AB (ByName ''B'') (Some ''api'')
   \<and> \<not> hasPermission subject_AB (ByName ''B'') (Some ''web'')
   \<and> \<not> hasPermission subject_AB (ByName ''B'') None"
proof -
  have 1: "hasPermission subject1 (ByName ''edit-users'') (Some ''web'')"
    using hasPermission_characterisation [where s = subject1 and n = "''edit-users''" and g = "''web''"]
    by (simp add: subject1_def admin_def edit_users_def delete_users_def)
  have 2: "\<not> hasPermission subject1 (ByName ''edit-users'') (Some ''api'')"
    using hasPermission_characterisation [where s = subject1 and n = "''edit-users''" and g = "''api''"]
    by (simp add: subject1_def admin_def edit_users_def delete_users_def)
  have 3: "hasPermission subject1 (ByEntity delete_users) (Some ''web'')"
    using hasPermission_characterisation [where s = subject1 and e = delete_users and g = "''web''"]
    by (simp add: subject1_def admin_def edit_users_def delete_users_def)
  have 4: "hasPermission subject_AB (ByName ''B'') (Some ''api'')"
    using hasPermission_characterisation [where s = subject_AB and n = "''B''" and g = "''api''"]
    by (simp add: subject_AB_def perm_A_def perm_B_def)
  have 5: "\<not> hasPermission subject_AB (ByName ''B'') (Some ''web'')"
    using hasPermission_characterisation [where s = subject_AB and n = "''B''" and g = "''web''"]
    by (simp add: subject_AB_def perm_A_def perm_B_def)
  have n: "hasPermission s x None = hasPermission s x (Some ''web'')" for s x
    using hasPermission_characterisation [where s = s and x = x] by (rule conjunct2 [THEN conjunct2, THEN conjunct1])
  show ?thesis
    using 1 2 3 4 5 by (simp add: n)
qed

text \<open>
  C10. When an assigned role already holds a permission named \<open>n\<close> under the guard,
  \<open>givePermissionTo\<close> for the name leaves the subject unchanged, since its test consults the
  roles as well; \<open>syncPermissions\<close> with the single name ends with no direct permission
  under the guard at all; and once every role holding the permission is removed,
  \<open>hasPermission\<close> is false.
\<close>

theorem givePermissionTo_shadowed_by_role:
  assumes "\<exists>r \<in> set (roles s). role_has_permission r n (guard_param g)"
  shows "fst (givePermissionTo \<sigma> s (ByName n) g) = s
    \<and> getDirectPermissions (fst (givePermissionTo \<sigma> s (ByName n) g)) g = getDirectPermissions s g
    \<and> getDirectPermissions (fst (syncPermissions \<sigma> s [ByName n] g)) g = []
    \<and> ((\<forall>r \<in> set (roles s). role_has_permission r n (guard_param g) \<longrightarrow>
            ir_name r = rn \<and> ir_guardName r = Some (guard_param rg))
         \<longrightarrow> \<not> hasPermission
                (removeRole (fst (syncPermissions \<sigma> s [ByName n] g)) (RoleByName rn) rg)
                (ByName n) g)"
proof -
  have h: "\<And>ps. hasPermission (s\<lparr>permissions := ps\<rparr>) (ByName n) (Some (guard_param g))"
    using assms by (auto simp: hasPermission_iff)
  have give: "fst (givePermissionTo \<sigma> s (ByName n) g) = s"
    using h[of "permissions s"] by (simp add: givePermissionTo_cases)
  have sync: "fst (syncPermissions \<sigma> s [ByName n] g) =
      s\<lparr>permissions := filter (\<lambda>p. p_guardName p \<noteq> guard_param g) (permissions s)\<rparr>"
    using h by (simp add: syncPermissions_def Let_def split_beta givePermissionTo_cases)
  have direct: "getDirectPermissions (fst (syncPermissions \<sigma> s [ByName n] g)) g = []"
    by (simp add: sync getDirectPermissions_def filter_empty_conv)
  have removed: "(\<forall>r \<in> set (roles s). role_has_permission r n (guard_param g) \<longrightarrow>
            ir_name r = rn \<and> ir_guardName r = Some (guard_param rg))
         \<longrightarrow> \<not> hasPermission
                (removeRole (fst (syncPermissions \<sigma> s [ByName n] g)) (RoleByName rn) rg)
                (ByName n) g"
    by (auto simp: sync removeRole_def hasPermission_iff role_name_def)
  show ?thesis
    using give direct removed by simp
qed

theorem givePermissionTo_shadowed_by_role_witness:
  "fst (givePermissionTo sys0 subject1 (ByName ''edit-users'') None) = subject1
   \<and> getDirectPermissions (fst (syncPermissions sys0 subject1 [ByName ''edit-users''] None)) None = []
   \<and> \<not> hasPermission
        (removeRole (fst (syncPermissions sys0 subject1 [ByName ''edit-users''] None))
           (RoleByName ''admin'') None)
        (ByName ''edit-users'') None"
proof -
  have holds: "\<exists>r \<in> set (roles subject1). role_has_permission r ''edit-users'' (guard_param None)"
    by (simp add: subject1_def subject1_admin_holds)
  have only: "\<forall>r \<in> set (roles subject1). role_has_permission r ''edit-users'' (guard_param None) \<longrightarrow>
      ir_name r = ''admin'' \<and> ir_guardName r = Some (guard_param None)"
    by (simp add: subject1_def admin_def)
  show ?thesis
    using givePermissionTo_shadowed_by_role [OF holds, of sys0 "''admin''" None] only
    by blast
qed

section \<open>The merged view: getAllPermissions\<close>

lemma set_update_subset: "set (AList.update k v al) \<subseteq> insert (k, v) (set al)"
  by (induction al) auto

lemma name_keyed_update: "name_keyed al \<Longrightarrow> name_keyed (AList.update (ip_name p) p al)"
  using set_update_subset[of "ip_name p" p al] by (auto simp: name_keyed_def)

lemma foldl_update_name_keyed:
  "name_keyed al \<Longrightarrow> name_keyed (foldl (\<lambda>m p. AList.update (ip_name p) p m) al xs)"
  by (induction xs arbitrary: al) (simp_all add: name_keyed_update)

lemma foldl_update_distinct:
  "distinct (map fst al) \<Longrightarrow>
   distinct (map fst (foldl (\<lambda>m p. AList.update (ip_name p) p m) al xs))"
  by (induction xs arbitrary: al) (simp_all add: distinct_update)

lemma foldl_update_map_of:
  "map_of (foldl (\<lambda>m p. AList.update (ip_name p) p m) al xs) n =
     (case filter (\<lambda>q. ip_name q = n) xs of [] \<Rightarrow> map_of al n | qs \<Rightarrow> Some (last qs))"
proof (induction xs arbitrary: al)
  case Nil
  then show ?case by simp
next
  case (Cons x xs)
  show ?case
    by (simp add: Cons.IH update_conv' split: list.splits)
qed

lemma name_keyed_fst: "name_keyed al \<Longrightarrow> map fst al = map ip_name (map snd al)"
  by (induction al) (auto simp: name_keyed_def)

lemma name_keyed_find:
  "name_keyed al \<Longrightarrow> find (\<lambda>p. ip_name p = n) (map snd al) = map_of al n"
  by (induction al) (auto simp: name_keyed_def)

lemma getAllPermissions_alt:
  "getAllPermissions s g =
     map snd (foldl (\<lambda>m p. AList.update (ip_name p) p m) [] (allPermissions s (guard_param g)))"
  by (simp add: getAllPermissions_def Let_def)

lemma merge_find:
  "find (\<lambda>p. ip_name p = n)
       (map snd (foldl (\<lambda>m p. AList.update (ip_name p) p m) [] (xs :: IPermission list))) =
     (case filter (\<lambda>q. ip_name q = n) xs of [] \<Rightarrow> None | qs \<Rightarrow> Some (last qs))"
proof -
  have nk: "name_keyed (foldl (\<lambda>m p. AList.update (ip_name p) p m) [] xs)"
    by (rule foldl_update_name_keyed) (simp add: name_keyed_def)
  show ?thesis
    by (simp only: name_keyed_find[OF nk] foldl_update_map_of) (simp split: list.splits)
qed

lemma merge_distinct:
  "distinct (map ip_name
      (map snd (foldl (\<lambda>m p. AList.update (ip_name p) p m) [] (xs :: IPermission list))))"
proof -
  have nk: "name_keyed (foldl (\<lambda>m p. AList.update (ip_name p) p m) [] xs)"
    by (rule foldl_update_name_keyed) (simp add: name_keyed_def)
  have d: "distinct (map fst (foldl (\<lambda>m p. AList.update (ip_name p) p m) [] xs))"
    by (rule foldl_update_distinct) simp
  show ?thesis
    using d by (simp only: name_keyed_fst[OF nk])
qed

lemma find_distinct_mem:
  "distinct (map f xs) \<Longrightarrow> p \<in> set xs \<longleftrightarrow> find (\<lambda>q. f q = f p) xs = Some p"
  by (induction xs) (auto simp: image_iff dest: sym)

lemma last_filter_mem:
  "filter P xs \<noteq> [] \<Longrightarrow> last (filter P xs) \<in> set xs \<and> P (last (filter P xs))"
  using last_in_set[of "filter P xs"] by auto

lemma allPermissions_mem:
  "p \<in> set (allPermissions s g) \<longleftrightarrow>
     (\<exists>d \<in> set (permissions s). p_guardName d = g \<and> p = Permission_as_IPermission d) \<or>
     (\<exists>r \<in> set (roles s). \<exists>ps. ir_permissions r = Some ps \<and> p \<in> set ps \<and> ip_guardName p = Some g)"
  by (auto simp: allPermissions_def rolePermissions_def getDirectPermissions_def
      split: option.splits)

lemma allPermissions_eq:
  "allPermissions s g =
     map Permission_as_IPermission (filter (\<lambda>p. p_guardName p = g) (permissions s))
     @ concat (map (\<lambda>role. case ir_permissions role of
                              None \<Rightarrow> []
                            | Some ps \<Rightarrow> filter (\<lambda>p. ip_guardName p = Some g) ps)
                   (roles s))"
  by (simp add: allPermissions_def rolePermissions_def getDirectPermissions_def)

lemma rolePermissions_mem:
  "p \<in> set (rolePermissions s g) \<longleftrightarrow>
     (\<exists>r \<in> set (roles s). \<exists>ps. ir_permissions r = Some ps \<and> p \<in> set ps \<and> ip_guardName p = Some g)"
  by (auto simp: rolePermissions_def split: option.splits) (metis)+

lemma getAllPermissions_facts:
  fixes s g
  defines "res \<equiv> getAllPermissions s (Some g)" and "al \<equiv> allPermissions s g"
    and "rp \<equiv> rolePermissions s g"
  shows "distinct (map ip_name res)"
    and "\<And>n. find (\<lambda>p. ip_name p = n) res =
          (case filter (\<lambda>q. ip_name q = n) al of [] \<Rightarrow> None | qs \<Rightarrow> Some (last qs))"
    and "\<And>p. p \<in> set res \<longleftrightarrow>
          filter (\<lambda>q. ip_name q = ip_name p) al \<noteq> []
          \<and> p = last (filter (\<lambda>q. ip_name q = ip_name p) al)"
    and "set res \<subseteq> set al"
    and "ip_name ` set res = ip_name ` set al"
    and "\<forall>q \<in> set rp. last (filter (\<lambda>r. ip_name r = ip_name q) rp) \<in> set res"
proof -
  have alt: "res = map snd (foldl (\<lambda>m p. AList.update (ip_name p) p m) [] al)"
    by (simp add: res_def al_def getAllPermissions_alt)
  show d: "distinct (map ip_name res)"
    by (simp only: alt merge_distinct)
  show f: "find (\<lambda>p. ip_name p = n) res =
          (case filter (\<lambda>q. ip_name q = n) al of [] \<Rightarrow> None | qs \<Rightarrow> Some (last qs))" for n
    by (simp only: alt merge_find)
  show mem: "p \<in> set res \<longleftrightarrow>
      filter (\<lambda>q. ip_name q = ip_name p) al \<noteq> []
      \<and> p = last (filter (\<lambda>q. ip_name q = ip_name p) al)" for p
    unfolding find_distinct_mem[OF d, of p] f by (auto split: list.splits)
  show sub: "set res \<subseteq> set al"
  proof
    fix p assume "p \<in> set res"
    then show "p \<in> set al"
      using last_filter_mem[of "\<lambda>q. ip_name q = ip_name p" al] by (simp add: mem)
  qed
  show "ip_name ` set res = ip_name ` set al"
  proof
    show "ip_name ` set res \<subseteq> ip_name ` set al" using sub by auto
    show "ip_name ` set al \<subseteq> ip_name ` set res"
    proof
      fix n assume "n \<in> ip_name ` set al"
      then obtain q where q: "q \<in> set al" "ip_name q = n" by auto
      then have ne: "filter (\<lambda>r. ip_name r = n) al \<noteq> []"
        by (auto simp: filter_empty_conv)
      let ?p = "last (filter (\<lambda>r. ip_name r = n) al)"
      have pn: "ip_name ?p = n" using last_filter_mem[OF ne] by simp
      have "?p \<in> set res" using ne pn by (simp add: mem)
      then show "n \<in> ip_name ` set res" using pn by force
    qed
  qed
  show "\<forall>q \<in> set rp. last (filter (\<lambda>r. ip_name r = ip_name q) rp) \<in> set res"
  proof
    fix q assume q: "q \<in> set rp"
    have ne: "filter (\<lambda>r. ip_name r = ip_name q) rp \<noteq> []"
      using q by (auto simp: filter_empty_conv)
    let ?p = "last (filter (\<lambda>r. ip_name r = ip_name q) rp)"
    have pn: "ip_name ?p = ip_name q" using last_filter_mem[OF ne] by simp
    have l: "last (filter (\<lambda>r. ip_name r = ip_name q) al) = ?p"
      using ne by (simp add: al_def rp_def allPermissions_def)
    have ne': "filter (\<lambda>r. ip_name r = ip_name q) al \<noteq> []"
      using ne by (simp add: al_def rp_def allPermissions_def)
    show "?p \<in> set res"
      using ne' l pn by (simp add: mem)
  qed
qed

text \<open>
  C3. For every guard name \<open>g\<close>, \<open>getAllPermissions\<close> under \<open>g\<close> returns the direct
  permissions whose guard name is \<open>g\<close> and the permissions of the assigned roles whose guard
  name is \<open>g\<close> (the guard of the permission, not of the role), deduplicated by name. With
  \<open>direct\<close> the former, \<open>inherited\<close> the latter in the order of the roles, and the direct
  ones put before the inherited ones: no name occurs twice in the result; the entry found
  under a name is the last one of that name; the result holds exactly the entries that are
  the last of their name; every name of the union is represented; and whenever an inherited
  permission has some name, the entry of that name is an inherited one (the last of that
  name), also when a direct permission shares the name. An omitted guard is \<^verbatim>\<open>'web'\<close>. A
  direct permission appears in the result with its own name and guard name.
\<close>

theorem getAllPermissions_merge:
  "(let direct = map Permission_as_IPermission
                   (filter (\<lambda>p. p_guardName p = g) (permissions s));
        inherited = concat (map (\<lambda>role. case ir_permissions role of
                                            None \<Rightarrow> []
                                          | Some ps \<Rightarrow> filter (\<lambda>p. ip_guardName p = Some g) ps)
                                 (roles s));
        result = getAllPermissions s (Some g)
    in distinct (map ip_name result)
       \<and> (\<forall>n. find (\<lambda>p. ip_name p = n) result =
              (case filter (\<lambda>q. ip_name q = n) (direct @ inherited) of
                 [] \<Rightarrow> None | qs \<Rightarrow> Some (last qs)))
       \<and> (\<forall>p. p \<in> set result \<longleftrightarrow>
              filter (\<lambda>q. ip_name q = ip_name p) (direct @ inherited) \<noteq> []
              \<and> p = last (filter (\<lambda>q. ip_name q = ip_name p) (direct @ inherited)))
       \<and> set result \<subseteq> set (direct @ inherited)
       \<and> ip_name ` set result = ip_name ` set (direct @ inherited)
       \<and> (\<forall>q \<in> set inherited.
              last (filter (\<lambda>r. ip_name r = ip_name q) inherited) \<in> set result)
       \<and> (\<forall>p. p \<in> set inherited \<longleftrightarrow>
              (\<exists>r \<in> set (roles s). \<exists>ps. ir_permissions r = Some ps \<and> p \<in> set ps
                  \<and> ip_guardName p = Some g)))
   \<and> getAllPermissions s None = getAllPermissions s (Some ''web'')
   \<and> ip_name (Permission_as_IPermission d) = p_name d
   \<and> ip_guardName (Permission_as_IPermission d) = Some (p_guardName d)"
proof -
  have al: "map Permission_as_IPermission (filter (\<lambda>p. p_guardName p = g) (permissions s))
      @ concat (map (\<lambda>role. case ir_permissions role of
                              None \<Rightarrow> []
                            | Some ps \<Rightarrow> filter (\<lambda>p. ip_guardName p = Some g) ps)
                   (roles s)) = allPermissions s g"
    by (simp only: allPermissions_eq)
  have rp: "concat (map (\<lambda>role. case ir_permissions role of
                              None \<Rightarrow> []
                            | Some ps \<Rightarrow> filter (\<lambda>p. ip_guardName p = Some g) ps)
                   (roles s)) = rolePermissions s g"
    by (simp only: rolePermissions_def)
  have n: "getAllPermissions s None = getAllPermissions s (Some ''web'')"
    by (simp add: getAllPermissions_def)
  have c: "ip_name (Permission_as_IPermission d) = p_name d"
    "ip_guardName (Permission_as_IPermission d) = Some (p_guardName d)"
    by (simp_all add: Permission_as_IPermission_def)
  have m: "\<forall>p. p \<in> set (rolePermissions s g) \<longleftrightarrow>
              (\<exists>r \<in> set (roles s). \<exists>ps. ir_permissions r = Some ps \<and> p \<in> set ps
                  \<and> ip_guardName p = Some g)"
    by (simp only: rolePermissions_mem) simp
  show ?thesis
    unfolding Let_def al
    unfolding rp
    apply (intro conjI allI)
             apply (rule getAllPermissions_facts(1))
            apply (rule getAllPermissions_facts(2))
           apply (rule getAllPermissions_facts(3))
          apply (rule getAllPermissions_facts(4))
         apply (rule getAllPermissions_facts(5))
        apply (rule getAllPermissions_facts(6))
       apply (rule m[rule_format])
      apply (rule n)
     apply (rule c(1))
    apply (rule c(2))
    done
qed

text \<open>The subject holds \<^verbatim>\<open>edit-users\<close> directly and through \<^verbatim>\<open>admin\<close>: the entry
  returned under that name is the role's entity. The subject holding \<^verbatim>\<open>A\<close> under
  \<^verbatim>\<open>web\<close> and \<^verbatim>\<open>B\<close> under \<^verbatim>\<open>api\<close> has, under \<^verbatim>\<open>api\<close>, an entry for \<^verbatim>\<open>B\<close> and
  none for \<^verbatim>\<open>A\<close>.\<close>

theorem getAllPermissions_merge_witness:
  "find (\<lambda>p. ip_name p = ''edit-users'') (getAllPermissions subject2 None) = Some edit_users
   \<and> edit_users \<in> set (getAllPermissions subject2 (Some ''web''))
   \<and> find (\<lambda>p. ip_name p = ''B'') (getAllPermissions subject_AB (Some ''api''))
       = Some (Permission_as_IPermission perm_B)
   \<and> find (\<lambda>p. ip_name p = ''A'') (getAllPermissions subject_AB (Some ''api'')) = None"
proof -
  have ps: "permissions subject2 = [direct_edit]" "roles subject2 = [admin]"
    by (simp_all add: subject2_def)
  have dg: "p_guardName direct_edit = ''web''"
    by (simp add: direct_edit_def)
  have ad: "ir_permissions admin = Some [edit_users, delete_users]"
    by (simp add: admin_def)
  have n: "ip_name edit_users = ''edit-users''" "ip_name delete_users = ''delete-users''"
    "p_name direct_edit = ''edit-users''"
    "ip_guardName edit_users = Some ''web''" "ip_guardName delete_users = Some ''web''"
    by (simp_all add: edit_users_def delete_users_def direct_edit_def)
  have ab: "permissions subject_AB = [perm_A, perm_B]" "roles subject_AB = []"
    by (simp_all add: subject_AB_def)
  have abg: "p_guardName perm_A = ''web''" "p_guardName perm_B = ''api''"
    "p_name perm_A = ''A''" "p_name perm_B = ''B''"
    by (simp_all add: perm_A_def perm_B_def)
  have 1: "find (\<lambda>p. ip_name p = ''edit-users'') (getAllPermissions subject2 (Some ''web''))
        = Some edit_users
      \<and> edit_users \<in> set (getAllPermissions subject2 (Some ''web''))"
    using getAllPermissions_merge [where s = subject2 and g = "''web''"]
    by (simp add: Let_def ps dg ad n)
  have 2: "find (\<lambda>p. ip_name p = ''B'') (getAllPermissions subject_AB (Some ''api''))
       = Some (Permission_as_IPermission perm_B)
     \<and> find (\<lambda>p. ip_name p = ''A'') (getAllPermissions subject_AB (Some ''api'')) = None"
    using getAllPermissions_merge [where s = subject_AB and g = "''api''"]
    by (simp add: Let_def ab abg)
  have 3: "getAllPermissions subject2 None = getAllPermissions subject2 (Some ''web'')"
    using getAllPermissions_merge [where s = subject2]
    by (rule conjunct2 [THEN conjunct1])
  show ?thesis
    using 1 2 by (simp add: 3)
qed

section \<open>Mutations of the direct permissions\<close>

lemma permission_of_arg_guard:
  "p_guardName (fst (permission_of_arg \<sigma> x g)) =
     (case x of ByName n \<Rightarrow> str_or (Some g) ''web'' | ByEntity e \<Rightarrow> str_or (ip_guardName e) ''web'')"
  by (cases x) (simp_all add: permission_of_arg_def new_Permission_def
      IPermission_as_Partial_def split_beta Let_def)

lemma givePermissionTo_roles [simp]:
  "roles (fst (givePermissionTo \<sigma> s x g)) = roles s"
  by (simp add: givePermissionTo_cases)

lemma givePermissionTo_idempotent_if_guard_matches:
  assumes "p_guardName (fst (permission_of_arg \<sigma> x (guard_param g))) = guard_param g"
  shows "fst (givePermissionTo \<sigma>' (fst (givePermissionTo \<sigma> s x g)) x g) = fst (givePermissionTo \<sigma> s x g)"
proof (cases "hasPermission s (ByName (permission_name x)) (Some (guard_param g))")
  case True
  then show ?thesis by (simp add: givePermissionTo_cases)
next
  case False
  let ?p = "fst (permission_of_arg \<sigma> x (guard_param g))"
  have "hasPermission (s\<lparr>permissions := permissions s @ [?p]\<rparr>) (ByName (permission_name x)) (Some (guard_param g))"
    using assms by (simp add: hasPermission_iff)
  with False show ?thesis by (simp add: givePermissionTo_cases)
qed

lemma give_each_roles [simp]: "roles (fst (give_each \<sigma> s xs g)) = roles s"
  by (induction xs arbitrary: \<sigma> s) (simp_all add: split_beta)

lemma give_each_appends:
  "\<exists>ys added. subseq ys xs
      \<and> permissions (fst (give_each \<sigma> s xs g)) = permissions s @ added
      \<and> list_all2 (\<lambda>p x. p_name p = permission_name x
                           \<and> (\<exists>\<sigma>'. p = fst (permission_of_arg \<sigma>' x g))) added ys
      \<and> (\<forall>x \<in> set ys. \<not> (\<exists>r \<in> set (roles s). role_has_permission r (permission_name x) g))"
proof (induction xs arbitrary: \<sigma> s)
  case Nil
  then show ?case by simp
next
  case (Cons x xs)
  let ?s1 = "fst (givePermissionTo \<sigma> s x (Some g))" and ?\<sigma>1 = "snd (givePermissionTo \<sigma> s x (Some g))"
  let ?built = "\<lambda>p x. p_name p = permission_name x \<and> (\<exists>\<sigma>'. p = fst (permission_of_arg \<sigma>' x g))"
  let ?held = "\<lambda>x. \<exists>r \<in> set (roles s). role_has_permission r (permission_name x) g"
  have r1: "roles ?s1 = roles s" by simp
  from Cons.IH[of ?\<sigma>1 ?s1] obtain ys where
    "\<exists>added. subseq ys xs
      \<and> permissions (fst (give_each ?\<sigma>1 ?s1 xs g)) = permissions ?s1 @ added
      \<and> list_all2 ?built added ys
      \<and> (\<forall>x \<in> set ys. \<not> (\<exists>r \<in> set (roles ?s1). role_has_permission r (permission_name x) g))" ..
  then obtain added where a: "subseq ys xs"
      "permissions (fst (give_each ?\<sigma>1 ?s1 xs g)) = permissions ?s1 @ added"
      "list_all2 ?built added ys"
      "\<forall>x \<in> set ys. \<not> (\<exists>r \<in> set (roles ?s1). role_has_permission r (permission_name x) g)"
    by (elim exE conjE)
  have a4: "\<forall>x \<in> set ys. \<not> ?held x"
    using a(4) by (simp only: r1)
  have step: "give_each \<sigma> s (x # xs) g = give_each ?\<sigma>1 ?s1 xs g"
    by (simp add: split_beta)
  show ?case
  proof (cases "hasPermission s (ByName (permission_name x)) (Some g)")
    case True
    then have p1: "permissions ?s1 = permissions s" by (simp add: givePermissionTo_cases)
    have s: "subseq ys (x # xs)" using a(1) by (rule list_emb_Cons)
    show ?thesis
      unfolding step
      apply (rule exI[of _ ys], rule exI[of _ added])
      apply (intro conjI)
         apply (rule s)
        apply (simp only: a(2) p1)
       apply (rule a(3))
      apply (rule a4)
      done
  next
    case False
    let ?p = "fst (permission_of_arg \<sigma> x g)"
    from False have p1: "permissions ?s1 = permissions s @ [?p]"
      by (simp add: givePermissionTo_cases)
    from False have nh: "\<not> ?held x"
      by (simp add: hasPermission_iff)
    have s: "subseq (x # ys) (x # xs)" using a(1) by simp
    have b: "?built ?p x"
      by (intro conjI exI[of _ \<sigma>]) simp_all
    show ?thesis
      unfolding step
      apply (rule exI[of _ "x # ys"], rule exI[of _ "?p # added"])
      apply (intro conjI)
         apply (rule s)
        apply (simp only: a(2) p1 append_assoc append_Cons append_Nil)
       apply (simp only: list_all2_Cons a(3) b simp_thms)
      apply (insert nh a4)
      apply simp
      done
  qed
qed

lemma syncPermissions_give_each:
  "syncPermissions \<sigma> s ps g2 =
     give_each \<sigma> (s\<lparr>permissions := filter (\<lambda>p. p_guardName p \<noteq> guard_param g2) (permissions s)\<rparr>)
       ps (guard_param g2)"
  by (simp add: syncPermissions_def Let_def)

lemma filter_other_guard:
  "g1 \<noteq> g \<Longrightarrow>
   filter (\<lambda>p. p_guardName p = g1) (filter (\<lambda>p. p_guardName p \<noteq> g) xs) =
   filter (\<lambda>p. p_guardName p = g1) (xs :: Permission list)"
  by (induction xs) auto

lemma syncPermissions_appends:
  "\<exists>ys added. subseq ys ps
      \<and> permissions (fst (syncPermissions \<sigma> s ps (Some g))) =
          filter (\<lambda>p. p_guardName p \<noteq> g) (permissions s) @ added
      \<and> list_all2 (\<lambda>p x. p_name p = permission_name x
                           \<and> (\<exists>\<sigma>'. p = fst (permission_of_arg \<sigma>' x g))) added ys
      \<and> (\<forall>x \<in> set ys. \<not> (\<exists>r \<in> set (roles s). role_has_permission r (permission_name x) g))"
  using give_each_appends[of ps \<sigma>
      "s\<lparr>permissions := filter (\<lambda>p. p_guardName p \<noteq> g) (permissions s)\<rparr>" g]
  by (simp only: syncPermissions_give_each guard_param_simps) simp

lemma list_all2_set_left:
  "list_all2 P xs ys \<Longrightarrow> \<forall>x \<in> set xs. \<exists>y \<in> set ys. P x y"
  by (induction rule: list_all2_induct) auto

lemma getDirectPermissions_Some:
  "getDirectPermissions s (Some g) = filter (\<lambda>p. p_guardName p = g) (permissions s)"
  by (simp add: getDirectPermissions_def)

lemma give_each_names:
  assumes "\<forall>x \<in> set xs. \<forall>\<sigma>'. p_guardName (fst (permission_of_arg \<sigma>' x g)) = g"
  shows "p_name ` set (getDirectPermissions (fst (give_each \<sigma> s xs g)) (Some g)) =
           p_name ` set (getDirectPermissions s (Some g)) \<union>
           permission_name ` {x \<in> set xs. \<not> (\<exists>r \<in> set (roles s). role_has_permission r (permission_name x) g)}
         \<and> (distinct (map p_name (getDirectPermissions s (Some g))) \<longrightarrow>
              distinct (map p_name (getDirectPermissions (fst (give_each \<sigma> s xs g)) (Some g))))"
  using assms
proof (induction xs arbitrary: \<sigma> s)
  case Nil
  then show ?case by simp
next
  case (Cons x xs)
  let ?s1 = "fst (givePermissionTo \<sigma> s x (Some g))" and ?\<sigma>1 = "snd (givePermissionTo \<sigma> s x (Some g))"
  let ?D = "\<lambda>s. p_name ` set (getDirectPermissions s (Some g))"
  let ?held = "\<lambda>n. \<exists>r \<in> set (roles s). role_has_permission r n g"
  have step: "give_each \<sigma> s (x # xs) g = give_each ?\<sigma>1 ?s1 xs g"
    by (simp add: split_beta)
  have gx: "p_guardName (fst (permission_of_arg \<sigma> x g)) = g"
    using Cons.prems by simp
  have r1: "roles ?s1 = roles s" by simp
  have hp: "hasPermission s (ByName (permission_name x)) (Some g) \<longleftrightarrow>
      permission_name x \<in> ?D s \<or> ?held (permission_name x)"
    by (auto simp: hasPermission_iff getDirectPermissions_Some image_iff)
  have D1: "?D ?s1 = ?D s \<union> (if ?held (permission_name x) then {} else {permission_name x})"
    and d1: "distinct (map p_name (getDirectPermissions s (Some g))) \<longrightarrow>
      distinct (map p_name (getDirectPermissions ?s1 (Some g)))"
  proof -
    show "?D ?s1 = ?D s \<union> (if ?held (permission_name x) then {} else {permission_name x})"
    proof (cases "hasPermission s (ByName (permission_name x)) (Some g)")
      case True
      then have "?s1 = s" by (simp add: givePermissionTo_cases)
      then show ?thesis using True hp by auto
    next
      case False
      then have "getDirectPermissions ?s1 (Some g) =
          getDirectPermissions s (Some g) @ [fst (permission_of_arg \<sigma> x g)]"
        using gx by (simp add: givePermissionTo_cases getDirectPermissions_Some)
      then show ?thesis using False hp by simp
    qed
    show "distinct (map p_name (getDirectPermissions s (Some g))) \<longrightarrow>
      distinct (map p_name (getDirectPermissions ?s1 (Some g)))"
    proof (cases "hasPermission s (ByName (permission_name x)) (Some g)")
      case True
      then have "?s1 = s" by (simp add: givePermissionTo_cases)
      then show ?thesis by simp
    next
      case False
      then have "getDirectPermissions ?s1 (Some g) =
          getDirectPermissions s (Some g) @ [fst (permission_of_arg \<sigma> x g)]"
        using gx by (simp add: givePermissionTo_cases getDirectPermissions_Some)
      then show ?thesis using False hp by simp
    qed
  qed
  have IH: "?D (fst (give_each ?\<sigma>1 ?s1 xs g)) =
           ?D ?s1 \<union> permission_name ` {x \<in> set xs. \<not> ?held (permission_name x)}
         \<and> (distinct (map p_name (getDirectPermissions ?s1 (Some g))) \<longrightarrow>
              distinct (map p_name (getDirectPermissions (fst (give_each ?\<sigma>1 ?s1 xs g)) (Some g))))"
    using Cons.IH[of ?\<sigma>1 ?s1] Cons.prems by (simp only: r1) simp
  have names: "?D (fst (give_each \<sigma> s (x # xs) g)) =
      ?D s \<union> permission_name ` {y \<in> set (x # xs). \<not> ?held (permission_name y)}"
    unfolding step using IH D1 by auto
  show ?case
    using names IH d1 unfolding step by blast
qed

lemma built_guard_matches:
  assumes "\<forall>x \<in> set ps. case x of ByName n \<Rightarrow> g \<noteq> []
                              | ByEntity e \<Rightarrow> str_or (ip_guardName e) ''web'' = g"
  shows "\<forall>x \<in> set ps. \<forall>\<sigma>'. p_guardName (fst (permission_of_arg \<sigma>' x g)) = g"
proof (intro ballI allI)
  fix x \<sigma>' assume "x \<in> set ps"
  with assms have c: "case x of ByName n \<Rightarrow> g \<noteq> []
                              | ByEntity e \<Rightarrow> str_or (ip_guardName e) ''web'' = g"
    by (rule bspec)
  show "p_guardName (fst (permission_of_arg \<sigma>' x g)) = g"
    using c by (cases x) (simp_all add: permission_of_arg_guard str_or_def)
qed

lemma syncPermissions_names:
  assumes "\<forall>x \<in> set ps. case x of ByName n \<Rightarrow> guard_param g2 \<noteq> []
                              | ByEntity e \<Rightarrow> str_or (ip_guardName e) ''web'' = guard_param g2"
  shows "p_name ` set (getDirectPermissions (fst (syncPermissions \<sigma> s ps g2)) g2) =
           permission_name ` {x \<in> set ps.
              \<not> (\<exists>r \<in> set (roles s). role_has_permission r (permission_name x) (guard_param g2))}
         \<and> distinct (map p_name (getDirectPermissions (fst (syncPermissions \<sigma> s ps g2)) g2))"
proof -
  let ?g = "guard_param g2"
  let ?s0 = "s\<lparr>permissions := filter (\<lambda>p. p_guardName p \<noteq> ?g) (permissions s)\<rparr>"
  have e: "getDirectPermissions ?s0 (Some ?g) = []"
    by (simp add: getDirectPermissions_Some filter_empty_conv)
  have o: "getDirectPermissions t g2 = getDirectPermissions t (Some ?g)" for t
    by (simp add: getDirectPermissions_def)
  have r: "roles ?s0 = roles s"
    by simp
  show ?thesis
    using give_each_names[OF built_guard_matches[OF assms], of \<sigma> ?s0]
    by (simp only: syncPermissions_give_each o e r) simp
qed

text \<open>
  C4, as stated, fails: the supplied set does not always take the place of the permissions
  of the guard. The subject holds \<^verbatim>\<open>A\<close> under \<^verbatim>\<open>web\<close>, \<^verbatim>\<open>B\<close> under \<^verbatim>\<open>api\<close>, and the
  role \<^verbatim>\<open>admin\<close>, which holds \<^verbatim>\<open>edit-users\<close> under \<^verbatim>\<open>web\<close>. Syncing
  \<^verbatim>\<open>['edit-users']\<close> under \<^verbatim>\<open>web\<close> removes \<^verbatim>\<open>A\<close> and adds nothing, because
  \<open>givePermissionTo\<close> skips what a role already grants: no direct permission of the guard
  is left, and the supplied name is not among them.
\<close>

theorem syncPermissions_supplied_set_counterexample:
  "\<not> (p_name ` set (getDirectPermissions
           (fst (syncPermissions sys0 subject_AB_admin [ByName ''edit-users''] (Some ''web'')))
           (Some ''web''))
        = permission_name ` set [ByName ''edit-users''])"
proof -
  have h: "hasPermission (subject_AB_admin\<lparr>permissions := ps\<rparr>) (ByName ''edit-users'') (Some ''web'')"
    for ps
    by (simp add: hasPermission_iff subject_AB_admin_def subject1_admin_holds)
  have "fst (syncPermissions sys0 subject_AB_admin [ByName ''edit-users''] (Some ''web'')) =
      subject_AB_admin\<lparr>permissions := [perm_B]\<rparr>"
    using h [of "[perm_B]"]
    by (simp add: syncPermissions_give_each split_beta givePermissionTo_cases)
      (simp add: subject_AB_admin_def perm_A_def perm_B_def)
  then show ?thesis
    by (simp add: getDirectPermissions_Some perm_B_def)
qed

text \<open>
  C4, amended. For every guard name \<open>g\<close> (an omitted guard is \<^verbatim>\<open>'web'\<close>),
  \<open>syncPermissions\<close> under \<open>g\<close> keeps every direct permission of every other guard \<open>g1\<close>,
  unchanged and in place (the direct permissions of \<open>g1\<close> before are an initial part of
  those after); it drops every direct permission of \<open>g\<close> and appends only permissions built
  from the supplied list, in the order of the list and at most one per element (the appended
  permissions match, one to one, a subsequence of the list; each has the name of its
  element and the guard name the constructor gives it), and none for an element whose name an
  assigned role already holds under \<open>g\<close>; the roles are untouched. When every supplied
  element is built with the guard \<open>g\<close> itself (a name under a non-empty guard, an entity
  whose guard name, \<^verbatim>\<open>'web'\<close> when absent or empty, is \<open>g\<close>), then afterwards the direct
  permissions of \<open>g\<close> are, by name and each once, the supplied elements that no role already
  holds under \<open>g\<close>, every supplied element is held under \<open>g\<close> (directly or through a role),
  and the direct permissions of every other guard are exactly those before. With an empty
  list the result is the permissions of the other guards.
\<close>

theorem syncPermissions_guard_scoped:
  "(\<forall>g1. g1 \<noteq> g \<longrightarrow>
      (\<exists>extra. filter (\<lambda>p. p_guardName p = g1) (permissions (fst (syncPermissions \<sigma> s ps (Some g)))) =
                 filter (\<lambda>p. p_guardName p = g1) (permissions s) @ extra))
   \<and> (\<exists>ys added.
        subseq ys ps
        \<and> permissions (fst (syncPermissions \<sigma> s ps (Some g))) =
            filter (\<lambda>p. p_guardName p \<noteq> g) (permissions s) @ added
        \<and> list_all2
            (\<lambda>p x. (\<exists>\<sigma>'. p = fst (permission_of_arg \<sigma>' x g))
                 \<and> p_name p = (case x of ByName n \<Rightarrow> n | ByEntity e \<Rightarrow> ip_name e)
                 \<and> p_guardName p =
                     (case x of
                        ByName n \<Rightarrow> if g = [] then ''web'' else g
                      | ByEntity e \<Rightarrow>
                          (case ip_guardName e of
                             None \<Rightarrow> ''web''
                           | Some h \<Rightarrow> if h = [] then ''web'' else h)))
            added ys
        \<and> (\<forall>x \<in> set ys.
              \<not> (\<exists>r \<in> set (roles s). \<exists>qs. ir_permissions r = Some qs
                     \<and> (\<exists>q \<in> set qs. ip_name q = permission_name x \<and> ip_guardName q = Some g)))
        \<and> length added \<le> length ps
        \<and> (\<forall>p \<in> set added. \<exists>x \<in> set ps. \<exists>\<sigma>'. p = fst (permission_of_arg \<sigma>' x g)))
   \<and> ((\<forall>x \<in> set ps. case x of ByName n \<Rightarrow> g \<noteq> []
                              | ByEntity e \<Rightarrow> str_or (ip_guardName e) ''web'' = g) \<longrightarrow>
        p_name ` set (filter (\<lambda>p. p_guardName p = g)
                        (permissions (fst (syncPermissions \<sigma> s ps (Some g))))) =
           permission_name ` {x \<in> set ps.
              \<not> (\<exists>r \<in> set (roles s). \<exists>qs. ir_permissions r = Some qs
                     \<and> (\<exists>q \<in> set qs. ip_name q = permission_name x \<and> ip_guardName q = Some g))}
        \<and> distinct (map p_name (filter (\<lambda>p. p_guardName p = g)
                                    (permissions (fst (syncPermissions \<sigma> s ps (Some g))))))
        \<and> (\<forall>x \<in> set ps. hasPermission (fst (syncPermissions \<sigma> s ps (Some g))) x (Some g))
        \<and> (\<forall>g1. g1 \<noteq> g \<longrightarrow>
              filter (\<lambda>p. p_guardName p = g1) (permissions (fst (syncPermissions \<sigma> s ps (Some g)))) =
                filter (\<lambda>p. p_guardName p = g1) (permissions s)))
   \<and> roles (fst (syncPermissions \<sigma> s ps (Some g))) = roles s
   \<and> permissions (fst (syncPermissions \<sigma> s [] (Some g))) =
        filter (\<lambda>p. p_guardName p \<noteq> g) (permissions s)
   \<and> syncPermissions \<sigma> s ps None = syncPermissions \<sigma> s ps (Some ''web'')
   \<and> getDirectPermissions s (Some g) = filter (\<lambda>p. p_guardName p = g) (permissions s)
   \<and> getDirectPermissions s None = filter (\<lambda>p. p_guardName p = ''web'') (permissions s)
   \<and> permission_name (ByName n) = n \<and> permission_name (ByEntity e) = ip_name e"
proof -
  let ?s' = "fst (syncPermissions \<sigma> s ps (Some g))"
  let ?H = "\<forall>x \<in> set ps. case x of ByName n \<Rightarrow> g \<noteq> []
                              | ByEntity e \<Rightarrow> str_or (ip_guardName e) ''web'' = g"
  let ?held = "\<lambda>x. \<exists>r \<in> set (roles s). \<exists>qs. ir_permissions r = Some qs
                     \<and> (\<exists>q \<in> set qs. ip_name q = permission_name x \<and> ip_guardName q = Some g)"
  let ?built = "\<lambda>p x. (\<exists>\<sigma>'. p = fst (permission_of_arg \<sigma>' x g))
                 \<and> p_name p = (case x of ByName n \<Rightarrow> n | ByEntity e \<Rightarrow> ip_name e)
                 \<and> p_guardName p =
                     (case x of
                        ByName n \<Rightarrow> if g = [] then ''web'' else g
                      | ByEntity e \<Rightarrow>
                          (case ip_guardName e of
                             None \<Rightarrow> ''web''
                           | Some h \<Rightarrow> if h = [] then ''web'' else h))"
  from syncPermissions_appends[of ps \<sigma> s g] obtain ys where
    "\<exists>added. subseq ys ps
      \<and> permissions ?s' = filter (\<lambda>p. p_guardName p \<noteq> g) (permissions s) @ added
      \<and> list_all2 (\<lambda>p x. p_name p = permission_name x
                           \<and> (\<exists>\<sigma>'. p = fst (permission_of_arg \<sigma>' x g))) added ys
      \<and> (\<forall>x \<in> set ys. \<not> (\<exists>r \<in> set (roles s). role_has_permission r (permission_name x) g))" ..
  then obtain added where a: "subseq ys ps"
      "permissions ?s' = filter (\<lambda>p. p_guardName p \<noteq> g) (permissions s) @ added"
      "list_all2 (\<lambda>p x. p_name p = permission_name x
                           \<and> (\<exists>\<sigma>'. p = fst (permission_of_arg \<sigma>' x g))) added ys"
      "\<forall>x \<in> set ys. \<not> (\<exists>r \<in> set (roles s). role_has_permission r (permission_name x) g)"
    by (elim exE conjE)
  have held_eq: "(\<exists>r \<in> set (roles s). role_has_permission r (permission_name x) g) \<longleftrightarrow> ?held x" for x
    by (simp only: role_has_permission_iff)
  have b: "list_all2 ?built added ys"
  proof (rule list_all2_mono [OF a(3)])
    fix p x
    assume "p_name p = permission_name x \<and> (\<exists>\<sigma>'. p = fst (permission_of_arg \<sigma>' x g))"
    then have n: "p_name p = permission_name x" and ex: "\<exists>\<sigma>'. p = fst (permission_of_arg \<sigma>' x g)"
      by simp_all
    from ex obtain \<sigma>' where p: "p = fst (permission_of_arg \<sigma>' x g)" ..
    have gn: "p_guardName p =
        (case x of
           ByName n \<Rightarrow> if g = [] then ''web'' else g
         | ByEntity e \<Rightarrow>
             (case ip_guardName e of None \<Rightarrow> ''web'' | Some h \<Rightarrow> if h = [] then ''web'' else h))"
      unfolding p by (cases x) (simp_all add: permission_of_arg_guard str_or_def)
    have nn: "p_name p = (case x of ByName n \<Rightarrow> n | ByEntity e \<Rightarrow> ip_name e)"
      unfolding n by (cases x) simp_all
    show "?built p x"
      using ex nn gn by (intro conjI)
  qed
  have nr: "\<forall>x \<in> set ys. \<not> ?held x"
    using a(4) by (simp only: held_eq)
  have len: "length added \<le> length ps"
    using list_all2_lengthD [OF a(3)] list_emb_length [OF a(1)] by simp
  have sub: "set ys \<subseteq> set ps"
  proof
    fix x assume "x \<in> set ys"
    with a(1) obtain y where "y \<in> set ps" "x = y"
      by (rule list_emb_set)
    then show "x \<in> set ps" by simp
  qed
  have from_ps: "\<forall>p \<in> set added. \<exists>x \<in> set ps. \<exists>\<sigma>'. p = fst (permission_of_arg \<sigma>' x g)"
  proof
    fix p assume "p \<in> set added"
    with list_all2_set_left [OF a(3)]
    have "\<exists>x \<in> set ys. p_name p = permission_name x \<and> (\<exists>\<sigma>'. p = fst (permission_of_arg \<sigma>' x g))"
      by (rule bspec)
    then obtain x where x: "x \<in> set ys" and ex: "\<exists>\<sigma>'. p = fst (permission_of_arg \<sigma>' x g)"
      by (elim bexE conjE)
    from x sub have "x \<in> set ps" by (rule subsetD [rotated])
    then show "\<exists>x \<in> set ps. \<exists>\<sigma>'. p = fst (permission_of_arg \<sigma>' x g)"
      using ex by (rule bexI [rotated])
  qed
  have appended: "\<exists>ys added.
        subseq ys ps
        \<and> permissions ?s' = filter (\<lambda>p. p_guardName p \<noteq> g) (permissions s) @ added
        \<and> list_all2 ?built added ys
        \<and> (\<forall>x \<in> set ys. \<not> ?held x)
        \<and> length added \<le> length ps
        \<and> (\<forall>p \<in> set added. \<exists>x \<in> set ps. \<exists>\<sigma>'. p = fst (permission_of_arg \<sigma>' x g))"
    apply (rule exI[of _ ys], rule exI[of _ added])
    apply (intro conjI)
         apply (rule a(1))
        apply (rule a(2))
       apply (rule b)
      apply (rule nr)
     apply (rule len)
    apply (rule from_ps)
    done
  have frame: "filter (\<lambda>p. p_guardName p = g1) (permissions ?s') =
      filter (\<lambda>p. p_guardName p = g1) (permissions s) @ filter (\<lambda>p. p_guardName p = g1) added"
    if "g1 \<noteq> g" for g1
    by (simp only: a(2) filter_append filter_other_guard[OF that])
  have kept: "\<forall>g1. g1 \<noteq> g \<longrightarrow>
      (\<exists>extra. filter (\<lambda>p. p_guardName p = g1) (permissions ?s') =
                 filter (\<lambda>p. p_guardName p = g1) (permissions s) @ extra)"
  proof (intro allI impI)
    fix g1 assume "g1 \<noteq> g"
    then show "\<exists>extra. filter (\<lambda>p. p_guardName p = g1) (permissions ?s') =
                 filter (\<lambda>p. p_guardName p = g1) (permissions s) @ extra"
      by (intro exI[of _ "filter (\<lambda>p. p_guardName p = g1) added"]) (rule frame)
  qed
  have r: "roles ?s' = roles s"
    by (simp only: syncPermissions_give_each give_each_roles) simp
  have e: "permissions (fst (syncPermissions \<sigma> s [] (Some g))) =
        filter (\<lambda>p. p_guardName p \<noteq> g) (permissions s)"
    by (simp add: syncPermissions_give_each)
  have matched: "?H \<longrightarrow>
        p_name ` set (filter (\<lambda>p. p_guardName p = g) (permissions ?s')) =
           permission_name ` {x \<in> set ps. \<not> ?held x}
        \<and> distinct (map p_name (filter (\<lambda>p. p_guardName p = g) (permissions ?s')))
        \<and> (\<forall>x \<in> set ps. hasPermission ?s' x (Some g))
        \<and> (\<forall>g1. g1 \<noteq> g \<longrightarrow>
              filter (\<lambda>p. p_guardName p = g1) (permissions ?s') =
                filter (\<lambda>p. p_guardName p = g1) (permissions s))"
  proof
    assume H: ?H
    then have H': "\<forall>x \<in> set ps. case x of ByName n \<Rightarrow> guard_param (Some g) \<noteq> []
                              | ByEntity e \<Rightarrow> str_or (ip_guardName e) ''web'' = guard_param (Some g)"
      by (simp only: guard_param_simps)
    have names: "p_name ` set (filter (\<lambda>p. p_guardName p = g) (permissions ?s')) =
           permission_name ` {x \<in> set ps. \<not> ?held x}"
      and dist: "distinct (map p_name (filter (\<lambda>p. p_guardName p = g) (permissions ?s')))"
      using syncPermissions_names[OF H', of \<sigma> s]
      by (simp_all only: getDirectPermissions_Some guard_param_simps held_eq)
    have held: "\<forall>x \<in> set ps. hasPermission ?s' x (Some g)"
    proof
      fix x assume x: "x \<in> set ps"
      show "hasPermission ?s' x (Some g)"
      proof (cases "?held x")
        case True
        then have "\<exists>r \<in> set (roles s). role_has_permission r (permission_name x) g"
          by (simp only: held_eq)
        then show ?thesis by (simp add: hasPermission_iff r)
      next
        case False
        with x have "permission_name x
            \<in> p_name ` set (filter (\<lambda>p. p_guardName p = g) (permissions ?s'))"
          unfolding names by (intro imageI) simp
        then obtain p where "p \<in> set (filter (\<lambda>p. p_guardName p = g) (permissions ?s'))"
            "p_name p = permission_name x"
          by (elim imageE) simp
        then have "\<exists>p \<in> set (permissions ?s'). p_name p = permission_name x \<and> p_guardName p = g"
          by (intro bexI[of _ p]) simp_all
        then show ?thesis by (simp only: hasPermission_iff) simp
      qed
    qed
    have built: "\<forall>x \<in> set ps. \<forall>\<sigma>'. p_guardName (fst (permission_of_arg \<sigma>' x g)) = g"
      using H by (rule built_guard_matches)
    have ag: "p_guardName p = g" if "p \<in> set added" for p
    proof -
      have "\<exists>x \<in> set ps. \<exists>\<sigma>'. p = fst (permission_of_arg \<sigma>' x g)"
        using from_ps that by (rule bspec)
      then obtain x where x1: "x \<in> set ps" and ex: "\<exists>\<sigma>'. p = fst (permission_of_arg \<sigma>' x g)" ..
      from ex obtain \<sigma>' where x2: "p = fst (permission_of_arg \<sigma>' x g)" ..
      show ?thesis
        unfolding x2 using built x1 by simp
    qed
    have exact: "\<forall>g1. g1 \<noteq> g \<longrightarrow>
        filter (\<lambda>p. p_guardName p = g1) (permissions ?s') =
          filter (\<lambda>p. p_guardName p = g1) (permissions s)"
    proof (intro allI impI)
      fix g1 assume g1: "g1 \<noteq> g"
      have "filter (\<lambda>p. p_guardName p = g1) added = []"
        using ag g1 by (auto simp: filter_empty_conv)
      then show "filter (\<lambda>p. p_guardName p = g1) (permissions ?s') =
          filter (\<lambda>p. p_guardName p = g1) (permissions s)"
        by (simp only: frame[OF g1] append_Nil2)
    qed
    show "p_name ` set (filter (\<lambda>p. p_guardName p = g) (permissions ?s')) =
           permission_name ` {x \<in> set ps. \<not> ?held x}
        \<and> distinct (map p_name (filter (\<lambda>p. p_guardName p = g) (permissions ?s')))
        \<and> (\<forall>x \<in> set ps. hasPermission ?s' x (Some g))
        \<and> (\<forall>g1. g1 \<noteq> g \<longrightarrow>
              filter (\<lambda>p. p_guardName p = g1) (permissions ?s') =
                filter (\<lambda>p. p_guardName p = g1) (permissions s))"
      using names dist held exact by (intro conjI)
  qed
  have omitted: "syncPermissions \<sigma> s ps None = syncPermissions \<sigma> s ps (Some ''web'')"
    by (simp add: syncPermissions_def)
  have d1: "getDirectPermissions s (Some g) = filter (\<lambda>p. p_guardName p = g) (permissions s)"
    and d2: "getDirectPermissions s None = filter (\<lambda>p. p_guardName p = ''web'') (permissions s)"
    by (simp_all add: getDirectPermissions_def)
  have pn: "permission_name (ByName n) = n" "permission_name (ByEntity e) = ip_name e"
    by simp_all
  show ?thesis
    using kept appended matched r e omitted d1 d2 pn by (intro conjI)
qed

text \<open>The subject holds \<^verbatim>\<open>A\<close> under \<^verbatim>\<open>web\<close> and \<^verbatim>\<open>B\<close> under \<^verbatim>\<open>api\<close>; syncing
  the empty list under \<^verbatim>\<open>api\<close> removes \<^verbatim>\<open>B\<close> and leaves \<^verbatim>\<open>A\<close>; syncing
  \<^verbatim>\<open>['C']\<close> under \<^verbatim>\<open>api\<close> leaves \<^verbatim>\<open>A\<close> and puts \<^verbatim>\<open>C\<close> in the place of \<^verbatim>\<open>B\<close>.\<close>

theorem syncPermissions_guard_scoped_witness:
  "permissions (fst (syncPermissions sys0 subject_AB [] (Some ''api''))) = [perm_A]
   \<and> getDirectPermissions (fst (syncPermissions sys0 subject_AB [] (Some ''api''))) (Some ''web'')
        = [perm_A]
   \<and> getDirectPermissions (fst (syncPermissions sys0 subject_AB [] (Some ''api''))) (Some ''api'')
        = []
   \<and> p_name ` set (getDirectPermissions
          (fst (syncPermissions sys0 subject_AB [ByName ''C''] (Some ''api''))) (Some ''api''))
        = {''C''}
   \<and> getDirectPermissions
          (fst (syncPermissions sys0 subject_AB [ByName ''C''] (Some ''api''))) (Some ''web'')
        = [perm_A]"
proof -
  note e = syncPermissions_guard_scoped
    [where g = "''api''" and \<sigma> = sys0 and s = subject_AB and ps = "[]"]
  have p: "permissions (fst (syncPermissions sys0 subject_AB [] (Some ''api''))) = [perm_A]"
    using e[THEN conjunct2, THEN conjunct2, THEN conjunct2, THEN conjunct2, THEN conjunct1]
    by (simp add: subject_AB_def perm_A_def perm_B_def)
  have r: "roles subject_AB = []"
    by (simp add: subject_AB_def)
  have w: "filter (\<lambda>p. p_guardName p = ''web'') (permissions subject_AB) = [perm_A]"
    by (simp add: subject_AB_def perm_A_def perm_B_def)
  note t = syncPermissions_guard_scoped
    [where g = "''api''" and \<sigma> = sys0 and s = subject_AB and ps = "[ByName ''C'']"]
  have h: "\<forall>x \<in> set [ByName ''C'']. case x of ByName n \<Rightarrow> ''api'' \<noteq> []
             | ByEntity e \<Rightarrow> str_or (ip_guardName e) ''web'' = ''api''"
    by simp
  note m = t[THEN conjunct2, THEN conjunct2, THEN conjunct1, THEN mp, OF h]
  have c1: "p_name ` set (filter (\<lambda>p. p_guardName p = ''api'')
          (permissions (fst (syncPermissions sys0 subject_AB [ByName ''C''] (Some ''api'')))))
        = {''C''}"
    using m[THEN conjunct1] by (simp add: r)
  have c2: "filter (\<lambda>p. p_guardName p = ''web'')
          (permissions (fst (syncPermissions sys0 subject_AB [ByName ''C''] (Some ''api''))))
        = [perm_A]"
    using m[THEN conjunct2, THEN conjunct2, THEN conjunct2, THEN spec, of "''web''"]
    by (simp add: w)
  show ?thesis
    using c1 c2 by (simp add: p getDirectPermissions_Some perm_A_def)
qed

lemma new_Permission_of_entity:
  "ip_id e \<noteq> [] \<Longrightarrow> ip_createdAt e = Some c \<Longrightarrow> ip_updatedAt e = Some u \<Longrightarrow>
   new_Permission \<sigma> (IPermission_as_Partial e) =
     (\<lparr>p_id = ip_id e, p_name = ip_name e, p_guardName = str_or (ip_guardName e) ''web'',
       p_description = str_or_undefined (ip_description e), p_createdAt = Some c,
       p_updatedAt = Some u\<rparr>, \<sigma>)"
  by (simp add: new_Permission_def IPermission_as_Partial_def id_or_generate_def date_or_now_def
      str_or_def)

text \<open>Exactly when two calls in succession leave what one call leaves: the permission was
  already held, or the built permission carries the guard it was given under.\<close>

lemma givePermissionTo_idempotent_iff:
  "fst (givePermissionTo \<sigma>' (fst (givePermissionTo \<sigma> s x g)) x g) = fst (givePermissionTo \<sigma> s x g)
   \<longleftrightarrow> hasPermission s x g
       \<or> p_guardName (fst (permission_of_arg \<sigma> x (guard_param g))) = guard_param g"
proof (cases "hasPermission s (ByName (permission_name x)) (Some (guard_param g))")
  case True
  then show ?thesis
    using hasPermission_name_only[of s x g] by (simp add: givePermissionTo_cases)
next
  case False
  let ?p = "fst (permission_of_arg \<sigma> x (guard_param g))"
  let ?s1 = "s\<lparr>permissions := permissions s @ [?p]\<rparr>"
  have s1: "fst (givePermissionTo \<sigma> s x g) = ?s1"
    using False by (simp add: givePermissionTo_cases)
  have nh: "\<not> hasPermission s x g"
    using False hasPermission_name_only[of s x g] by simp
  show ?thesis
  proof (cases "p_guardName ?p = guard_param g")
    case True
    then show ?thesis
      using givePermissionTo_idempotent_if_guard_matches[of \<sigma> x g \<sigma>' s] by simp
  next
    case ng: False
    have "\<not> hasPermission ?s1 (ByName (permission_name x)) (Some (guard_param g))"
      using False ng by (simp add: hasPermission_iff)
    then have "length (permissions (fst (givePermissionTo \<sigma>' ?s1 x g))) = Suc (length (permissions ?s1))"
      by (simp add: givePermissionTo_cases)
    then have "fst (givePermissionTo \<sigma>' ?s1 x g) \<noteq> ?s1"
      by (metis n_not_Suc_n)
    then show ?thesis
      using nh ng by (simp add: s1)
  qed
qed

text \<open>
  C5. \<open>givePermissionTo\<close> is meant to insert at most once. It tests the name of the
  built permission against the guard argument, but pushes the built permission with the
  guard it carries. For an entity tagged \<^verbatim>\<open>api\<close> given under \<^verbatim>\<open>web\<close> the test never
  sees what was pushed: two calls in succession push two entries. The same happens for a
  name given under the empty guard, which the constructor replaces by \<^verbatim>\<open>web\<close>.
\<close>

theorem givePermissionTo_twice_pushes_twice:
  "(let (s1, \<sigma>1) = givePermissionTo sys0 subject0 (ByEntity api_edit) (Some ''web'');
        (s2, \<sigma>2) = givePermissionTo \<sigma>1 s1 (ByEntity api_edit) (Some ''web'')
    in length (permissions s1) = 1 \<and> length (permissions s2) = 2 \<and> s2 \<noteq> s1)
   \<and> (let (s1, \<sigma>1) = givePermissionTo sys0 subject0 (ByName ''edit-users'') (Some []);
        (s2, \<sigma>2) = givePermissionTo \<sigma>1 s1 (ByName ''edit-users'') (Some [])
    in length (permissions s1) = 1 \<and> length (permissions s2) = 2 \<and> s2 \<noteq> s1)"
proof -
  have e: "new_Permission \<sigma> (IPermission_as_Partial api_edit) =
      (\<lparr>p_id = ''p7'', p_name = ''edit-users'', p_guardName = ''api'', p_description = None,
        p_createdAt = Some 5, p_updatedAt = Some 5\<rparr>, \<sigma>)" for \<sigma>
    by (subst new_Permission_of_entity[of api_edit 5 5])
      (simp_all add: api_edit_def str_or_def str_or_undefined_def)
  have n: "ip_name api_edit = ''edit-users''"
    by (simp add: api_edit_def)
  have g: "p_guardName (fst (permission_of_arg \<sigma> (ByName ''edit-users'') [])) = ''web''" for \<sigma>
    by (simp add: permission_of_arg_guard str_or_def)
  have a: "length (permissions (fst (givePermissionTo \<sigma> s x g))) =
      (if hasPermission s (ByName (permission_name x)) (Some (guard_param g))
       then length (permissions s) else Suc (length (permissions s)))" for \<sigma> s x g
    by (simp add: givePermissionTo_cases)
  have first: "let (s1, \<sigma>1) = givePermissionTo sys0 subject0 (ByEntity api_edit) (Some ''web'');
        (s2, \<sigma>2) = givePermissionTo \<sigma>1 s1 (ByEntity api_edit) (Some ''web'')
    in length (permissions s1) = 1 \<and> length (permissions s2) = 2 \<and> s2 \<noteq> s1"
    by (simp add: split_beta Let_def givePermissionTo_cases hasPermission_iff subject0_def
        permission_of_arg_def e n)
  have second: "let (s1, \<sigma>1) = givePermissionTo sys0 subject0 (ByName ''edit-users'') (Some []);
        (s2, \<sigma>2) = givePermissionTo \<sigma>1 s1 (ByName ''edit-users'') (Some [])
    in length (permissions s1) = 1 \<and> length (permissions s2) = 2 \<and> s2 \<noteq> s1"
    by (simp add: split_beta Let_def givePermissionTo_cases hasPermission_iff subject0_def g)
  show ?thesis using first second by simp
qed

theorem givePermissionTo_twice_pushes_twice_witness:
  "fst (givePermissionTo
          (snd (givePermissionTo sys0 subject0 (ByEntity api_edit) (Some ''web'')))
          (fst (givePermissionTo sys0 subject0 (ByEntity api_edit) (Some ''web'')))
          (ByEntity api_edit) (Some ''web''))
     \<noteq> fst (givePermissionTo sys0 subject0 (ByEntity api_edit) (Some ''web''))"
  using givePermissionTo_twice_pushes_twice
  by (simp add: split_beta Let_def)

section \<open>Serialization\<close>

lemma str_or_nonempty [simp]: "b \<noteq> [] \<Longrightarrow> str_or a b \<noteq> []"
  by (simp add: str_or_def split: option.splits)

lemma str_or_undefined_not_empty [simp]: "str_or_undefined a \<noteq> Some []"
  by (simp add: str_or_undefined_def split: option.splits)

lemma date_or_now_Some [simp]: "fst (date_or_now \<sigma> a) \<noteq> None"
  by (simp add: date_or_now_def new_Date_def split: option.splits)

lemma new_Permission_inv: "Permission_inv (fst (new_Permission \<sigma> d))"
  by (simp add: Permission_inv_def new_Permission_def split_beta Let_def)

lemma new_Permission_id:
  "p_id (fst (new_Permission \<sigma> d)) =
     (case str_or_undefined (pp_id d) of Some i \<Rightarrow> i | None \<Rightarrow> take 9 (drop 2 (shd (random_src \<sigma>))))"
  by (simp add: new_Permission_def split_beta Let_def id_or_generate_def generateId_def
      str_or_undefined_def split: option.splits)

lemma Permission_roundtrip:
  assumes "Permission_inv p" "p_id p \<noteq> []"
  shows "Permission_fromJSON \<sigma> (Permission_toJSON p) = (p, \<sigma>)"
proof -
  obtain c u where cu: "p_createdAt p = Some c" "p_updatedAt p = Some u"
    using assms(1) by (auto simp: Permission_inv_def)
  have d: "str_or_undefined (str_or_undefined (p_description p)) = p_description p"
    using assms(1) by (auto simp: Permission_inv_def str_or_undefined_def split: option.splits)
  have g: "str_or (Some (p_guardName p)) ''web'' = p_guardName p"
    using assms(1) by (simp add: Permission_inv_def str_or_def)
  have n: "str_or (Some (p_name p)) [] = p_name p"
    by (simp add: str_or_def)
  have i: "id_or_generate \<sigma> (Some (p_id p)) = (p_id p, \<sigma>)"
    using assms(2) by (simp add: id_or_generate_def)
  show ?thesis
    by (simp add: Permission_fromJSON_def Permission_toJSON_def IPermission_as_Partial_def
        new_Permission_def i n g d cu date_or_now_def)
qed

lemma map_as_Permission_roundtrip:
  "list_all (\<lambda>p. Permission_inv p \<and> p_id p \<noteq> []) ps \<Longrightarrow>
   map_as_Permission \<sigma> (map Plain (map Permission_toJSON ps)) = (ps, \<sigma>)"
proof (induction ps)
  case Nil
  then show ?case by simp
next
  case (Cons p ps)
  then have "as_Permission \<sigma> (Plain (Permission_toJSON p)) = (p, \<sigma>)"
    using Permission_roundtrip[of p \<sigma>] by (simp add: as_Permission_def Permission_fromJSON_def)
  then show ?case using Cons by simp
qed

lemma Role_roundtrip:
  assumes "Role_inv r" "r_id r \<noteq> []" "list_all (\<lambda>p. p_id p \<noteq> []) (r_permissions r)"
  shows "Role_fromJSON \<sigma> (Role_toJSON r) = (r, \<sigma>)"
proof -
  obtain c u where cu: "r_createdAt r = Some c" "r_updatedAt r = Some u"
    using assms(1) by (auto simp: Role_inv_def)
  have d: "str_or_undefined (str_or_undefined (r_description r)) = r_description r"
    using assms(1) by (auto simp: Role_inv_def str_or_undefined_def split: option.splits)
  have g: "str_or (Some (r_guardName r)) ''web'' = r_guardName r"
    using assms(1) by (simp add: Role_inv_def str_or_def)
  have n: "str_or (Some (r_name r)) [] = r_name r"
    by (simp add: str_or_def)
  have i: "id_or_generate \<sigma> (Some (r_id r)) = (r_id r, \<sigma>)"
    using assms(2) by (simp add: id_or_generate_def)
  have "list_all (\<lambda>p. Permission_inv p \<and> p_id p \<noteq> []) (r_permissions r)"
    using assms(1,3) by (simp add: Role_inv_def list_all_iff)
  then have ps: "map_as_Permission \<sigma> (map Plain (map Permission_toJSON (r_permissions r)))
      = (r_permissions r, \<sigma>)"
    by (rule map_as_Permission_roundtrip)
  show ?thesis
    by (simp add: Role_fromJSON_def Role_toJSON_def IRole_as_Partial_def
        new_Role_def i n g d cu date_or_now_def ps del: map_map)
qed

lemma map_as_Permission_inv:
  "(\<forall>p. Instance p \<in> set xs \<longrightarrow> Permission_inv p) \<Longrightarrow>
   list_all Permission_inv (fst (map_as_Permission \<sigma> xs))"
proof (induction xs arbitrary: \<sigma>)
  case Nil
  then show ?case by simp
next
  case (Cons x xs)
  have "Permission_inv (fst (as_Permission \<sigma> x))"
    using Cons.prems by (cases x) (simp_all add: as_Permission_def new_Permission_inv)
  then show ?case using Cons by (simp add: split_beta)
qed

lemma new_Role_inv:
  "(\<forall>p. Instance p \<in> set (case pr_permissions d of None \<Rightarrow> [] | Some xs \<Rightarrow> xs) \<longrightarrow> Permission_inv p) \<Longrightarrow>
   Role_inv (fst (new_Role \<sigma> d))"
  by (simp add: Role_inv_def new_Role_def split_beta Let_def map_as_Permission_inv)

text \<open>
  C7, as stated, fails: when the identifier is generated and \<^verbatim>\<open>Math.random()\<close> yields
  \<open>0\<close>, the generated identifier is the empty string, which \<^verbatim>\<open>fromJSON\<close> (the
  constructor) takes for a missing one and replaces by a fresh identifier; the copy is not
  \<^verbatim>\<open>equals\<close>-equal to the original.
\<close>

theorem roundtrip_empty_generated_id_counterexample:
  "\<not> Permission_equals
       (fst (Permission_fromJSON (snd (new_Permission sys_zero named_x))
              (Permission_toJSON (fst (new_Permission sys_zero named_x)))))
       (fst (new_Permission sys_zero named_x))"
  by (simp add: Permission_equals_def Permission_fromJSON_def Permission_toJSON_def new_Permission_id
      IPermission_as_Partial_def sys_zero_def named_x_def str_or_undefined_def
      new_Permission_def id_or_generate_def generateId_def date_or_now_def new_Date_def split_beta)

text \<open>
  C7, amended. A permission built by the constructor whose identifier is not empty is
  reproduced by \<^verbatim>\<open>fromJSON(toJSON())\<close> field for field, without generating an identifier
  or reading the clock; in particular the copy is \<^verbatim>\<open>equals\<close>-equal. The same holds for a
  role that satisfies what the constructors establish and whose identifier and nested
  permission identifiers are not empty: the nested list is reproduced exactly. The
  constructors do establish it: always for a permission, and for a role whenever the class
  instances handed to it do.
\<close>

theorem serialization_roundtrip:
  "(p_id (fst (new_Permission \<sigma> d)) \<noteq> [] \<longrightarrow>
      Permission_fromJSON \<sigma>' (Permission_toJSON (fst (new_Permission \<sigma> d)))
        = (fst (new_Permission \<sigma> d), \<sigma>')
      \<and> Permission_equals
          (fst (Permission_fromJSON \<sigma>' (Permission_toJSON (fst (new_Permission \<sigma> d)))))
          (fst (new_Permission \<sigma> d)))
   \<and> (Role_inv r \<and> r_id r \<noteq> [] \<and> list_all (\<lambda>p. p_id p \<noteq> []) (r_permissions r) \<longrightarrow>
      Role_fromJSON \<sigma>' (Role_toJSON r) = (r, \<sigma>')
      \<and> Role_equals (fst (Role_fromJSON \<sigma>' (Role_toJSON r))) r)
   \<and> Permission_inv (fst (new_Permission \<sigma> d))
   \<and> ((\<forall>p. Instance p \<in> set (case pr_permissions rd of None \<Rightarrow> [] | Some xs \<Rightarrow> xs)
           \<longrightarrow> Permission_inv p)
        \<longrightarrow> Role_inv (fst (new_Role \<sigma> rd)))"
proof (intro conjI impI)
  assume i: "p_id (fst (new_Permission \<sigma> d)) \<noteq> []"
  show rt: "Permission_fromJSON \<sigma>' (Permission_toJSON (fst (new_Permission \<sigma> d)))
        = (fst (new_Permission \<sigma> d), \<sigma>')"
    using new_Permission_inv i by (rule Permission_roundtrip)
  show "Permission_equals
          (fst (Permission_fromJSON \<sigma>' (Permission_toJSON (fst (new_Permission \<sigma> d)))))
          (fst (new_Permission \<sigma> d))"
    by (simp add: rt Permission_equals_def)
next
  assume r: "Role_inv r \<and> r_id r \<noteq> [] \<and> list_all (\<lambda>p. p_id p \<noteq> []) (r_permissions r)"
  show rt: "Role_fromJSON \<sigma>' (Role_toJSON r) = (r, \<sigma>')"
    using r by (intro Role_roundtrip) simp_all
  show "Role_equals (fst (Role_fromJSON \<sigma>' (Role_toJSON r))) r"
    by (simp add: rt Role_equals_def)
next
  show "Permission_inv (fst (new_Permission \<sigma> d))"
    by (rule new_Permission_inv)
next
  assume "\<forall>p. Instance p \<in> set (case pr_permissions rd of None \<Rightarrow> [] | Some xs \<Rightarrow> xs)
           \<longrightarrow> Permission_inv p"
  then show "Role_inv (fst (new_Role \<sigma> rd))"
    by (rule new_Role_inv)
qed

text \<open>A permission built from a name alone, and the role \<^verbatim>\<open>admin\<close> built from plain
  objects, both with a generated identifier.\<close>

theorem serialization_roundtrip_witness:
  "Permission_fromJSON sys0 (Permission_toJSON (fst (new_Permission sys0 named_x)))
     = (fst (new_Permission sys0 named_x), sys0)
   \<and> Role_fromJSON sys0 (Role_toJSON (fst (new_Role sys0 admin_data)))
     = (fst (new_Role sys0 admin_data), sys0)
   \<and> p_id (fst (new_Permission sys0 named_x)) = ''4fzyo82mv''
   \<and> map p_id (r_permissions (fst (new_Role sys0 admin_data))) = [''p1'', ''p2'']"
proof -
  have pid: "p_id (fst (new_Permission sys0 named_x)) = ''4fzyo82mv''"
    by (simp add: new_Permission_id named_x_def sys0_def str_or_undefined_def)
  have e: "as_Permission \<sigma> (Plain edit_users) =
      (\<lparr>p_id = ''p1'', p_name = ''edit-users'', p_guardName = ''web'', p_description = None,
        p_createdAt = Some 1, p_updatedAt = Some 1\<rparr>, \<sigma>)" for \<sigma>
    by (simp add: as_Permission_def new_Permission_def IPermission_as_Partial_def edit_users_def
        id_or_generate_def date_or_now_def str_or_def str_or_undefined_def)
  have dl: "as_Permission \<sigma> (Plain delete_users) =
      (\<lparr>p_id = ''p2'', p_name = ''delete-users'', p_guardName = ''web'', p_description = None,
        p_createdAt = Some 2, p_updatedAt = Some 2\<rparr>, \<sigma>)" for \<sigma>
    by (simp add: as_Permission_def new_Permission_def IPermission_as_Partial_def delete_users_def
        id_or_generate_def date_or_now_def str_or_def str_or_undefined_def)
  have ps: "r_permissions (fst (new_Role sys0 admin_data)) =
      [\<lparr>p_id = ''p1'', p_name = ''edit-users'', p_guardName = ''web'', p_description = None,
        p_createdAt = Some 1, p_updatedAt = Some 1\<rparr>,
       \<lparr>p_id = ''p2'', p_name = ''delete-users'', p_guardName = ''web'', p_description = None,
        p_createdAt = Some 2, p_updatedAt = Some 2\<rparr>]"
    by (simp add: new_Role_def admin_data_def split_beta e dl)
  have rid: "r_id (fst (new_Role sys0 admin_data)) \<noteq> []"
    by (simp add: new_Role_def admin_data_def split_beta id_or_generate_def generateId_def sys0_def)
  have inv: "Role_inv (fst (new_Role sys0 admin_data))"
    using serialization_roundtrip [where \<sigma> = sys0 and rd = admin_data]
    by (simp add: admin_data_def)
  have ids: "list_all (\<lambda>p. p_id p \<noteq> []) (r_permissions (fst (new_Role sys0 admin_data)))"
    by (simp add: ps)
  show ?thesis
    using serialization_roundtrip [of sys0 named_x sys0 "fst (new_Role sys0 admin_data)" admin_data]
      pid rid inv ids
    by (simp add: ps)
qed

section \<open>The manager\<close>

lemma merge_config_as_argument [simp]: "merge_config (config_as_argument c) = c"
  by (simp add: merge_config_def config_as_argument_def)

lemma fold_max_le: "a \<le> fold (\<lambda>m a. max a (Suc (f m))) xs (a::nat)"
proof (induction xs arbitrary: a)
  case Nil
  show ?case by simp
next
  case (Cons x xs)
  have "a \<le> max a (Suc (f x))" by simp
  also have "\<dots> \<le> fold (\<lambda>m a. max a (Suc (f m))) xs (max a (Suc (f x)))" by (rule Cons.IH)
  finally show ?case by simp
qed

lemma fold_max_gt: "m \<in> set xs \<Longrightarrow> f m < fold (\<lambda>m a. max a (Suc (f m))) xs (a::nat)"
proof (induction xs arbitrary: a)
  case Nil
  then show ?case by simp
next
  case (Cons x xs)
  show ?case
  proof (cases "m = x")
    case True
    have "Suc (f x) \<le> max a (Suc (f x))" by simp
    also have "\<dots> \<le> fold (\<lambda>m a. max a (Suc (f m))) xs (max a (Suc (f x)))" by (rule fold_max_le)
    finally show ?thesis using True by simp
  next
    case False
    with Cons.prems have "m \<in> set xs" by simp
    from Cons.IH [OF this] show ?thesis by simp
  qed
qed

lemma fresh_map_gt: "m < manager_next w \<Longrightarrow> guards_at (manager_store w m) < fresh_map w"
  unfolding fresh_map_def by (rule fold_max_gt) simp

lemma fresh_map_neq:
  assumes "m < manager_next w"
  shows "guards_at (manager_store w m) \<noteq> fresh_map w"
    and "guards_at (manager_store w m) \<noteq> Suc (fresh_map w)"
    and "fresh_map w \<noteq> guards_at (manager_store w m)"
    and "Suc (fresh_map w) \<noteq> guards_at (manager_store w m)"
  using fresh_map_gt [OF assms] by simp_all

lemma fresh_map_alloc:
  assumes "manager_next w' = Suc (manager_next w)"
    and "manager_store w' = (manager_store w)(manager_next w := obj)"
  shows "fresh_map w' = max (fresh_map w) (Suc (guards_at obj))"
proof -
  have "fold (\<lambda>m a. max a (Suc (guards_at (((manager_store w)(manager_next w := obj)) m))))
          [0..<manager_next w] 0
        = fold (\<lambda>m a. max a (Suc (guards_at (manager_store w m)))) [0..<manager_next w] 0"
    by (rule fold_cong) simp_all
  then show ?thesis
    by (simp add: fresh_map_def assms)
qed

lemma fresh_config_gt: "m < manager_next w \<Longrightarrow> config_at (manager_store w m) < fresh_config w"
  unfolding fresh_config_def by (rule fold_max_gt) simp

lemma fresh_config_neq:
  assumes "m < manager_next w"
  shows "config_at (manager_store w m) \<noteq> fresh_config w"
    and "fresh_config w \<noteq> config_at (manager_store w m)"
  using fresh_config_gt [OF assms] by simp_all

lemma new_PermissionManager_eq:
  "new_PermissionManager w cfg deps =
     (manager_next w,
      w\<lparr>guard_heap := (guard_heap w)(guard_next w := new_Guard (defaultGuard (merge_config cfg))),
        guard_next := Suc (guard_next w),
        map_heap := (map_heap w)
          (fresh_map w := [defaultGuard (merge_config cfg) \<mapsto> guard_next w]),
        config_heap := (config_heap w)(fresh_config w := merge_config cfg),
        manager_store := (manager_store w)
          (manager_next w :=
             \<lparr>guards_at = fresh_map w, config_at = fresh_config w,
              permissionChecks_of = Map.empty, roleChecks_of = Map.empty,
              dependencies_of = deps\<rparr>),
        manager_next := Suc (manager_next w)\<rparr>)"
  by (simp add: new_PermissionManager_def createGuard_def manager_heap_def Let_def)

lemma forGuard_eq:
  assumes "this < manager_next w"
  shows "forGuard w this g =
     (manager_next w,
      w\<lparr>guard_heap := (guard_heap w)
          (guard_next w :=
             new_Guard (defaultGuard (config_heap w (config_at (manager_store w this))))),
        guard_next := Suc (guard_next w),
        map_heap := (map_heap w)
          (fresh_map w :=
             [defaultGuard (config_heap w (config_at (manager_store w this))) \<mapsto> guard_next w],
           Suc (fresh_map w) := map_heap w (guards_at (manager_store w this))),
        config_heap := (config_heap w)
          (fresh_config w :=
             (config_heap w (config_at (manager_store w this)))\<lparr>defaultGuard := g\<rparr>),
        manager_store := (manager_store w)
          (manager_next w :=
             \<lparr>guards_at = Suc (fresh_map w), config_at = fresh_config w,
              permissionChecks_of = Map.empty, roleChecks_of = Map.empty,
              dependencies_of = no_dependencies\<rparr>),
        manager_next := Suc (manager_next w)\<rparr>)"
proof -
  let ?w1 = "snd (new_PermissionManager w (config_as_argument (config (manager_heap w this)))
      no_dependencies)"
  have f: "fresh_map ?w1 = Suc (fresh_map w)"
    by (simp add: new_PermissionManager_eq fresh_map_alloc [where w = w])
  have n: "this \<noteq> manager_next w"
    using assms by simp
  show ?thesis
    using n fresh_map_neq [OF assms]
    by (simp add: forGuard_def split_beta Let_def f)
      (simp add: new_PermissionManager_eq manager_heap_def Let_def)
qed

lemma world1_eq:
  "world1 =
     \<lparr>w_sys = sys0, guard_heap = (\<lambda>_. new_Guard [])(0 := new_Guard ''web''), guard_next = 1,
      map_heap = (\<lambda>_. Map.empty)(0 := [''web'' \<mapsto> 0]),
      config_heap = (\<lambda>_. merge_config no_config)(0 := merge_config no_config),
      manager_store = (\<lambda>_. blank_manager)
        (0 := \<lparr>guards_at = 0, config_at = 0,
               permissionChecks_of = Map.empty, roleChecks_of = Map.empty,
               dependencies_of = no_dependencies\<rparr>),
      manager_next = 1\<rparr>"
  by (simp add: world1_def new_PermissionManager_eq world0_def merge_config_def no_config_def
      fresh_map_def fresh_config_def)

lemma world1_manager:
  "manager_heap world1 0 =
     \<lparr>guards = [''web'' \<mapsto> 0], config = merge_config no_config,
      customPermissionChecks = Map.empty, customRoleChecks = Map.empty,
      dependencies = no_dependencies\<rparr>"
  by (simp add: world1_eq manager_heap_def Let_def)

lemma forGuard_manager:
  assumes "this < manager_next w"
  shows "manager_heap (snd (forGuard w this g)) (manager_next w) =
     \<lparr>guards = guards (manager_heap w this),
      config = (config (manager_heap w this))\<lparr>defaultGuard := g\<rparr>,
      customPermissionChecks = Map.empty, customRoleChecks = Map.empty,
      dependencies = no_dependencies\<rparr>"
  using assms fresh_map_neq [OF assms]
  by (simp add: forGuard_eq [OF assms] manager_heap_def Let_def)

lemma forGuard_others:
  assumes "this < manager_next w" and "m < manager_next w"
  shows "manager_heap (snd (forGuard w this g)) m = manager_heap w m"
  using assms(2) fresh_map_neq [OF assms(2)] fresh_config_neq [OF assms(2)]
  by (simp add: forGuard_eq [OF assms(1)] manager_heap_def Let_def)

lemma forGuard_fst: "fst (forGuard w this g) = manager_next w"
  by (simp add: forGuard_def new_PermissionManager_eq split_beta Let_def)

lemma find_None_names: "find (\<lambda>p. f p = n) xs = None \<longleftrightarrow> (\<forall>p \<in> set xs. f p \<noteq> n)"
  by (auto simp: find_None_iff)

lemma find_Some_names: "find (\<lambda>p. f p = n) xs = Some x \<Longrightarrow> x \<in> set xs \<and> f x = n"
  by (induction xs) (auto split: if_splits)

lemma as_Permission_call_eq [simp]:
  "as_Permission_call \<sigma> obj = Inr (as_Permission \<sigma> obj)"
  by (simp add: as_Permission_call_def as_Permission_def new_Permission_call_def
      split: perm_obj.splits)

lemma and_then_Inr [simp]: "and_then (Inr v) rest = rest v"
  by (simp add: and_then_def)

lemma map_as_Permission_call_eq [simp]:
  "map_as_Permission_call \<sigma> xs = Inr (map_as_Permission \<sigma> xs)"
  by (induction xs arbitrary: \<sigma>) (simp_all add: split_beta)

lemma new_Role_call_eq [simp]: "new_Role_call \<sigma> data = Inr (new_Role \<sigma> data)"
  by (simp add: new_Role_call_def new_Role_def split_beta Let_def)

lemma as_Role_call_eq [simp]: "as_Role_call \<sigma> obj = Inr (as_Role \<sigma> obj)"
  by (simp add: as_Role_call_def as_Role_def split: role_obj.splits)

lemma Guard_addPermission_call_eq:
  "Guard_addPermission_call \<sigma> gd p = Inr (Guard_addPermission \<sigma> gd p)"
  by (simp add: Guard_addPermission_call_def Guard_hasPermission_call_def Guard_addPermission_def
      Guard_hasPermission_def as_Permission_def split_beta Let_def)

lemma Guard_addRole_call_eq:
  "Guard_addRole_call \<sigma> gd ro = Inr (Guard_addRole \<sigma> gd ro)"
  by (simp add: Guard_addRole_call_def Guard_hasRole_call_def Guard_addRole_def
      Guard_hasRole_def as_Role_def split_beta Let_def)

lemma hasPermission_call_eq [simp]:
  "hasPermission_call s x go = Inr (hasPermission s x go)"
  by (simp add: hasPermission_call_def hasPermission_def Let_def)

lemma permission_of_arg_call_eq [simp]:
  "permission_of_arg_call \<sigma> x g = Inr (permission_of_arg \<sigma> x g)"
  by (simp add: permission_of_arg_call_def permission_of_arg_def new_Permission_call_def
      split: permission_arg.splits)

lemma givePermissionTo_call_eq:
  "givePermissionTo_call \<sigma> s x go = Inr (givePermissionTo \<sigma> s x go)"
  by (simp add: givePermissionTo_call_def givePermissionTo_def split_beta Let_def)

lemma give_each_call_eq: "give_each_call \<sigma> s xs g = Inr (give_each \<sigma> s xs g)"
  by (induction xs arbitrary: \<sigma> s) (simp_all add: givePermissionTo_call_eq split_beta)

lemma syncPermissions_call_eq:
  "syncPermissions_call \<sigma> s xs go = Inr (syncPermissions \<sigma> s xs go)"
  by (simp add: syncPermissions_call_def syncPermissions_def give_each_call_eq Let_def)

lemma revokePermissionTo_call_eq:
  "revokePermissionTo_call s x go = Inr (revokePermissionTo s x go)"
  by (simp add: revokePermissionTo_call_def revokePermissionTo_def Let_def)

lemma assignRole_call_returns: "\<exists>v. assignRole_call \<sigma> h y go = Inr v"
  by (simp add: assignRole_call_def role_of_arg_call_def hasRole_call_def split_beta Let_def
      split: role_arg.splits)

lemma assign_each_call_returns: "\<exists>v. assign_each_call \<sigma> h ys g = Inr v"
proof (induction ys arbitrary: \<sigma> h)
  case Nil
  show ?case by simp
next
  case (Cons y ys)
  obtain v where v: "assignRole_call \<sigma> h y (Some g) = Inr v"
    using assignRole_call_returns ..
  show ?case
    using Cons.IH [of "snd v" "fst v"] by (simp add: v split_beta)
qed

text \<open>
  C6. The lookups fail exactly on a miss, with the exception that names what is missing:
  \<open>getGuard\<close> fails iff no guard has the name; \<open>getPermission\<close> and \<open>getRole\<close> fail
  iff the resolved guard is missing (with \<open>GuardNotFoundException\<close>) or it exists and holds
  no permission, respectively no role, of the name (with \<open>PermissionNotFoundException\<close>,
  \<open>RoleNotFoundException\<close>). The creating and listing operations fail only when the
  resolved guard is missing, so the insertion into the guard never fails. No call of a
  method that adds, removes or replaces permissions or roles raises, whatever the receiver
  and the arguments: \<^verbatim>\<open>addPermission\<close>, \<^verbatim>\<open>removePermission\<close> and \<^verbatim>\<open>syncPermissions\<close> of a
  role; \<^verbatim>\<open>addPermission\<close>, \<^verbatim>\<open>removePermission\<close>, \<^verbatim>\<open>addRole\<close> and \<^verbatim>\<open>removeRole\<close> of a
  guard; \<^verbatim>\<open>givePermissionTo\<close>, \<^verbatim>\<open>revokePermissionTo\<close> and \<^verbatim>\<open>syncPermissions\<close> of the
  Has-Permissions mixin; \<^verbatim>\<open>assignRole\<close>, \<^verbatim>\<open>removeRole\<close> and \<^verbatim>\<open>syncRoles\<close> of the
  Has-Roles mixin. The calls of the Has-Permissions mixin and the insertions into a guard
  return what the functions of the same names compute.
\<close>

theorem lookup_failures:
  "(getGuard w this n = Inl e \<longleftrightarrow>
      guards (manager_heap w this) n = None \<and> e = GuardNotFoundException n)
   \<and> (getPermission w this n g = Inl e \<longleftrightarrow>
        (guards (manager_heap w this) (resolve_guard w this g) = None
           \<and> e = GuardNotFoundException (resolve_guard w this g))
      \<or> (\<exists>r. guards (manager_heap w this) (resolve_guard w this g) = Some r
           \<and> (\<forall>p \<in> set (g_permissions (guard_heap w r)). p_name p \<noteq> n)
           \<and> e = PermissionNotFoundException n))
   \<and> (getRole w this n g = Inl e \<longleftrightarrow>
        (guards (manager_heap w this) (resolve_guard w this g) = None
           \<and> e = GuardNotFoundException (resolve_guard w this g))
      \<or> (\<exists>r. guards (manager_heap w this) (resolve_guard w this g) = Some r
           \<and> (\<forall>p \<in> set (g_roles (guard_heap w r)). r_name p \<noteq> n)
           \<and> e = RoleNotFoundException n))
   \<and> (createPermission w this n g = Inl e \<longleftrightarrow>
        guards (manager_heap w this) (resolve_guard w this g) = None
           \<and> e = GuardNotFoundException (resolve_guard w this g))
   \<and> (createRole w this n g = Inl e \<longleftrightarrow>
        guards (manager_heap w this) (resolve_guard w this g) = None
           \<and> e = GuardNotFoundException (resolve_guard w this g))
   \<and> (Manager_getAllPermissions w this g = Inl e \<longleftrightarrow>
        guards (manager_heap w this) (resolve_guard w this g) = None
           \<and> e = GuardNotFoundException (resolve_guard w this g))
   \<and> (Manager_getAllRoles w this g = Inl e \<longleftrightarrow>
        guards (manager_heap w this) (resolve_guard w this g) = None
           \<and> e = GuardNotFoundException (resolve_guard w this g))
   \<and> Role_addPermission_call \<sigma> r p \<noteq> Inl e
   \<and> Role_removePermission_call \<sigma> r p \<noteq> Inl e
   \<and> Role_syncPermissions_call \<sigma> r ps \<noteq> Inl e
   \<and> Guard_addPermission_call \<sigma> gd p \<noteq> Inl e
   \<and> Guard_removePermission_call \<sigma> gd p \<noteq> Inl e
   \<and> Guard_addRole_call \<sigma> gd ro \<noteq> Inl e
   \<and> Guard_removeRole_call \<sigma> gd ro \<noteq> Inl e
   \<and> givePermissionTo_call \<sigma> s x go \<noteq> Inl e
   \<and> revokePermissionTo_call s x go \<noteq> Inl e
   \<and> syncPermissions_call \<sigma> s xs go \<noteq> Inl e
   \<and> assignRole_call \<sigma> h y go \<noteq> Inl e
   \<and> removeRole_call h y go \<noteq> Inl e
   \<and> syncRoles_call \<sigma> h ys go \<noteq> Inl e
   \<and> Guard_addPermission_call \<sigma> gd p = Inr (Guard_addPermission \<sigma> gd p)
   \<and> Guard_addRole_call \<sigma> gd ro = Inr (Guard_addRole \<sigma> gd ro)
   \<and> givePermissionTo_call \<sigma> s x go = Inr (givePermissionTo \<sigma> s x go)
   \<and> revokePermissionTo_call s x go = Inr (revokePermissionTo s x go)
   \<and> syncPermissions_call \<sigma> s xs go = Inr (syncPermissions \<sigma> s xs go)"
proof (intro conjI)
  show "getGuard w this n = Inl e \<longleftrightarrow>
      guards (manager_heap w this) n = None \<and> e = GuardNotFoundException n"
    by (auto simp: getGuard_def split: option.splits)
  show "getPermission w this n g = Inl e \<longleftrightarrow>
        (guards (manager_heap w this) (resolve_guard w this g) = None
           \<and> e = GuardNotFoundException (resolve_guard w this g))
      \<or> (\<exists>r. guards (manager_heap w this) (resolve_guard w this g) = Some r
           \<and> (\<forall>p \<in> set (g_permissions (guard_heap w r)). p_name p \<noteq> n)
           \<and> e = PermissionNotFoundException n)"
    by (cases "guards (manager_heap w this) (resolve_guard w this g)")
      (auto simp: getPermission_def getGuard_def Guard_getPermission_def find_None_names
        split: option.splits dest: find_Some_names)
  show "getRole w this n g = Inl e \<longleftrightarrow>
        (guards (manager_heap w this) (resolve_guard w this g) = None
           \<and> e = GuardNotFoundException (resolve_guard w this g))
      \<or> (\<exists>r. guards (manager_heap w this) (resolve_guard w this g) = Some r
           \<and> (\<forall>p \<in> set (g_roles (guard_heap w r)). r_name p \<noteq> n)
           \<and> e = RoleNotFoundException n)"
    by (cases "guards (manager_heap w this) (resolve_guard w this g)")
      (auto simp: getRole_def getGuard_def Guard_getRole_def find_None_names
        split: option.splits dest: find_Some_names)
  show "createPermission w this n g = Inl e \<longleftrightarrow>
        guards (manager_heap w this) (resolve_guard w this g) = None
           \<and> e = GuardNotFoundException (resolve_guard w this g)"
    by (cases "guards (manager_heap w this) (resolve_guard w this g)")
      (auto simp: createPermission_def getGuard_def split_beta Let_def)
  show "createRole w this n g = Inl e \<longleftrightarrow>
        guards (manager_heap w this) (resolve_guard w this g) = None
           \<and> e = GuardNotFoundException (resolve_guard w this g)"
    by (cases "guards (manager_heap w this) (resolve_guard w this g)")
      (auto simp: createRole_def getGuard_def split_beta Let_def)
  show "Manager_getAllPermissions w this g = Inl e \<longleftrightarrow>
        guards (manager_heap w this) (resolve_guard w this g) = None
           \<and> e = GuardNotFoundException (resolve_guard w this g)"
    by (cases "guards (manager_heap w this) (resolve_guard w this g)")
      (auto simp: Manager_getAllPermissions_def getGuard_def)
  show "Manager_getAllRoles w this g = Inl e \<longleftrightarrow>
        guards (manager_heap w this) (resolve_guard w this g) = None
           \<and> e = GuardNotFoundException (resolve_guard w this g)"
    by (cases "guards (manager_heap w this) (resolve_guard w this g)")
      (auto simp: Manager_getAllRoles_def getGuard_def)
  show "Role_addPermission_call \<sigma> r p \<noteq> Inl e"
    by (simp add: Role_addPermission_call_def Role_hasPermission_call_def split_beta)
  show "Role_removePermission_call \<sigma> r p \<noteq> Inl e"
    by (simp add: Role_removePermission_call_def split_beta)
  show "Role_syncPermissions_call \<sigma> r ps \<noteq> Inl e"
    by (simp add: Role_syncPermissions_call_def split_beta)
  show "Guard_addPermission_call \<sigma> gd p \<noteq> Inl e"
    by (simp add: Guard_addPermission_call_eq)
  show "Guard_removePermission_call \<sigma> gd p \<noteq> Inl e"
    by (simp add: Guard_removePermission_call_def split_beta)
  show "Guard_addRole_call \<sigma> gd ro \<noteq> Inl e"
    by (simp add: Guard_addRole_call_eq)
  show "Guard_removeRole_call \<sigma> gd ro \<noteq> Inl e"
    by (simp add: Guard_removeRole_call_def split_beta)
  show "givePermissionTo_call \<sigma> s x go \<noteq> Inl e"
    by (simp add: givePermissionTo_call_eq)
  show "revokePermissionTo_call s x go \<noteq> Inl e"
    by (simp add: revokePermissionTo_call_eq)
  show "syncPermissions_call \<sigma> s xs go \<noteq> Inl e"
    by (simp add: syncPermissions_call_eq)
  show "assignRole_call \<sigma> h y go \<noteq> Inl e"
    using assignRole_call_returns [of \<sigma> h y go] by auto
  show "removeRole_call h y go \<noteq> Inl e"
    by (simp add: removeRole_call_def Let_def)
  show "syncRoles_call \<sigma> h ys go \<noteq> Inl e"
    using assign_each_call_returns
      [of \<sigma> "h\<lparr>hr_roles := filter (\<lambda>r. r_guardName r \<noteq> guard_param go) (hr_roles h)\<rparr>" ys
        "guard_param go"]
    by (auto simp: syncRoles_call_def Let_def)
  show "Guard_addPermission_call \<sigma> gd p = Inr (Guard_addPermission \<sigma> gd p)"
    by (rule Guard_addPermission_call_eq)
  show "Guard_addRole_call \<sigma> gd ro = Inr (Guard_addRole \<sigma> gd ro)"
    by (rule Guard_addRole_call_eq)
  show "givePermissionTo_call \<sigma> s x go = Inr (givePermissionTo \<sigma> s x go)"
    by (rule givePermissionTo_call_eq)
  show "revokePermissionTo_call s x go = Inr (revokePermissionTo s x go)"
    by (rule revokePermissionTo_call_eq)
  show "syncPermissions_call \<sigma> s xs go = Inr (syncPermissions \<sigma> s xs go)"
    by (rule syncPermissions_call_eq)
qed

text \<open>A fresh manager: its default guard \<^verbatim>\<open>web\<close> exists and is empty, so the lookups of a
  name that was never created miss. Removing from the role \<^verbatim>\<open>admin\<close> a permission it does
  not hold raises nothing, and neither does giving a subject a permission.\<close>

theorem lookup_failures_witness:
  "getGuard world1 0 ''nonexistent'' = Inl (GuardNotFoundException ''nonexistent'')
   \<and> getPermission world1 0 ''nonexistent'' None = Inl (PermissionNotFoundException ''nonexistent'')
   \<and> getRole world1 0 ''nonexistent'' None = Inl (RoleNotFoundException ''nonexistent'')
   \<and> Role_removePermission_call sys0 (fst (new_Role sys0 admin_data)) (Plain api_edit)
       \<noteq> Inl (PermissionNotFoundException ''edit-users'')
   \<and> givePermissionTo_call sys0 subject0 (ByName ''edit-users'') None
       = Inr (givePermissionTo sys0 subject0 (ByName ''edit-users'') None)"
proof -
  have g: "guards (manager_heap world1 0) ''nonexistent'' = None"
    by (simp add: world1_manager)
  have r: "resolve_guard world1 0 None = ''web''"
    by (simp add: world1_manager resolve_guard_def str_or_def merge_config_def no_config_def)
  have w: "guards (manager_heap world1 0) ''web'' = Some 0"
    by (simp add: world1_manager)
  have e: "g_permissions (guard_heap world1 0) = []" "g_roles (guard_heap world1 0) = []"
    by (simp_all add: world1_eq new_Guard_def)
  have lookups: "getGuard world1 0 ''nonexistent'' = Inl (GuardNotFoundException ''nonexistent'')
   \<and> getPermission world1 0 ''nonexistent'' None = Inl (PermissionNotFoundException ''nonexistent'')
   \<and> getRole world1 0 ''nonexistent'' None = Inl (RoleNotFoundException ''nonexistent'')"
    using lookup_failures [of world1 0 "''nonexistent''" "GuardNotFoundException ''nonexistent''" None]
      lookup_failures [of world1 0 "''nonexistent''" "PermissionNotFoundException ''nonexistent''" None]
      lookup_failures [of world1 0 "''nonexistent''" "RoleNotFoundException ''nonexistent''" None]
    by (simp add: g r w e)
  have calls: "Role_removePermission_call sys0 (fst (new_Role sys0 admin_data)) (Plain api_edit)
       \<noteq> Inl (PermissionNotFoundException ''edit-users'')
   \<and> givePermissionTo_call sys0 subject0 (ByName ''edit-users'') None
       = Inr (givePermissionTo sys0 subject0 (ByName ''edit-users'') None)"
    using lookup_failures [where e = "PermissionNotFoundException ''edit-users''" and \<sigma> = sys0
        and r = "fst (new_Role sys0 admin_data)" and p = "Plain api_edit" and s = subject0
        and x = "ByName ''edit-users''" and go = None]
    by blast
  show ?thesis
    using lookups calls by blast
qed

text \<open>
  C2, as stated, fails: a guard argument that is supplied but empty is falsy, so the key is
  the default guard, not the argument. With a check registered under the empty key and the
  empty guard supplied, the check is not consulted.
\<close>

theorem check_dispatch_empty_guard_counterexample:
  "\<not> (customPermissionChecks (manager_heap world_empty_key 0) [] = Some always_true \<longrightarrow>
        fst (checkPermission world_empty_key 0 user0 (ByName ''x'') (Some []))
          = always_true user0 ''x'' [])"
  by (simp add: world_empty_key_def registerPermissionCheck_def world1_eq manager_heap_def
      checkPermission_def resolve_guard_def str_or_def merge_config_def no_config_def
      always_true_def user0_def Let_def)


text \<open>
  C2, amended. The key is the guard argument when it is supplied and not empty, and the
  configured default guard otherwise. When a custom check is registered under the key (as
  \<open>registerPermissionCheck\<close> does), \<open>checkPermission\<close> returns what the check returns on
  the subject, the name of the permission and the key, and the call it makes is that check,
  not the subject's \<open>hasPermission\<close>; when none is registered under the key it returns
  what the subject's \<open>hasPermission\<close> returns on the argument and the key. The same holds
  for \<open>registerRoleCheck\<close> and \<open>checkRole\<close>.
\<close>

theorem check_dispatch:
  "resolve_guard w this g =
      (case g of None \<Rightarrow> defaultGuard (config (manager_heap w this))
       | Some k \<Rightarrow> if k = [] then defaultGuard (config (manager_heap w this)) else k)
   \<and> customPermissionChecks (manager_heap (registerPermissionCheck w this k fn) this) k = Some fn
   \<and> customRoleChecks (manager_heap (registerRoleCheck w this k rfn) this) k = Some rfn
   \<and> (customPermissionChecks (manager_heap w this) (resolve_guard w this g) = Some fn \<longrightarrow>
        checkPermission w this u x g =
          (fn u (permission_name x) (resolve_guard w this g),
           CustomPermissionCheck (permission_name x) (resolve_guard w this g)))
   \<and> (customPermissionChecks (manager_heap w this) (resolve_guard w this g) = None \<longrightarrow>
        checkPermission w this u x g =
          (u_hasPermission u x (resolve_guard w this g),
           Subject_hasPermission x (resolve_guard w this g)))
   \<and> (customRoleChecks (manager_heap w this) (resolve_guard w this g) = Some rfn \<longrightarrow>
        checkRole w this u y g =
          (rfn u (role_name y) (resolve_guard w this g),
           CustomRoleCheck (role_name y) (resolve_guard w this g)))
   \<and> (customRoleChecks (manager_heap w this) (resolve_guard w this g) = None \<longrightarrow>
        checkRole w this u y g =
          (u_hasRole u y (resolve_guard w this g), Subject_hasRole y (resolve_guard w this g)))"
  by (simp add: resolve_guard_def str_or_def registerPermissionCheck_def registerRoleCheck_def
      manager_heap_def checkPermission_def checkRole_def Let_def split: option.splits)

theorem check_dispatch_witness:
  "checkPermission world_custom 0 user0 (ByName ''x'') (Some ''custom'')
     = (True, CustomPermissionCheck ''x'' ''custom'')
   \<and> checkPermission world1 0 user0 (ByName ''x'') None
     = (False, Subject_hasPermission (ByName ''x'') ''web'')"
proof -
  have r1: "resolve_guard world_custom 0 (Some ''custom'') = ''custom''"
    by (simp add: resolve_guard_def str_or_def)
  have c1: "customPermissionChecks (manager_heap world_custom 0) ''custom'' = Some always_true"
    by (simp add: world_custom_def registerPermissionCheck_def manager_heap_def Let_def)
  have r2: "resolve_guard world1 0 None = ''web''"
    by (simp add: world1_manager resolve_guard_def str_or_def merge_config_def no_config_def)
  have c2: "customPermissionChecks (manager_heap world1 0) ''web'' = None"
    by (simp add: world1_manager)
  show ?thesis
    using check_dispatch [where w = world_custom and this = 0 and g = "Some ''custom''" and fn = always_true
          and u = user0 and x = "ByName ''x''"]
      check_dispatch [where w = world1 and this = 0 and g = None and u = user0 and x = "ByName ''x''"]
    by (simp add: r1 c1 r2 c2 always_true_def user0_def)
qed

text \<open>
  C8. For a manager \<open>this\<close> of the store, \<open>forGuard\<close> returns a new manager (a fresh
  address) whose guards map equals this manager's map (the same guard references) and whose
  default guard is the argument. This manager is unchanged (its map, its configuration and
  its custom checks), as is every other manager and every guard object of the store.
  Creating a guard through the new manager afterwards changes the new manager's map and
  leaves this manager's map as it was. The new manager's map and configuration are objects
  of its own: their addresses are those of no map and no configuration a manager of the
  store held before. So a guard created afterwards through this manager, or through any
  other manager of the store, changes that manager's map and leaves the new manager's map as
  it was copied; and whatever is written into the new manager's map object or into its
  configuration object, every manager of the store reads its own map and its own
  configuration as before.
\<close>

theorem forGuard_frame:
  assumes "this < manager_next w"
  shows "fst (forGuard w this g) = manager_next w
    \<and> guards (manager_heap (snd (forGuard w this g)) (fst (forGuard w this g)))
        = guards (manager_heap w this)
    \<and> defaultGuard (config (manager_heap (snd (forGuard w this g)) (fst (forGuard w this g)))) = g
    \<and> manager_heap (snd (forGuard w this g)) this = manager_heap w this
    \<and> (\<forall>m < manager_next w. manager_heap (snd (forGuard w this g)) m = manager_heap w m)
    \<and> (\<forall>r < guard_next w. guard_heap (snd (forGuard w this g)) r = guard_heap w r)
    \<and> (\<forall>n. guards (manager_heap (snd (createGuard (snd (forGuard w this g)) (fst (forGuard w this g)) n)) this)
            = guards (manager_heap w this))
    \<and> (\<forall>n. guards (manager_heap (snd (createGuard (snd (forGuard w this g)) (fst (forGuard w this g)) n))
                 (fst (forGuard w this g)))
            = (guards (manager_heap w this))(n \<mapsto> Suc (guard_next w)))
    \<and> (\<forall>m < manager_next w.
          guards_at (manager_store (snd (forGuard w this g)) (fst (forGuard w this g)))
            \<noteq> guards_at (manager_store w m)
          \<and> guards_at (manager_store (snd (forGuard w this g)) m) = guards_at (manager_store w m)
          \<and> config_at (manager_store (snd (forGuard w this g)) (fst (forGuard w this g)))
            \<noteq> config_at (manager_store w m)
          \<and> config_at (manager_store (snd (forGuard w this g)) m) = config_at (manager_store w m))
    \<and> (\<forall>m < manager_next w. \<forall>n.
          guards (manager_heap (snd (createGuard (snd (forGuard w this g)) m n)) (fst (forGuard w this g)))
            = guards (manager_heap w this)
          \<and> guards (manager_heap (snd (createGuard (snd (forGuard w this g)) m n)) m)
            = (guards (manager_heap w m))(n \<mapsto> Suc (guard_next w)))
    \<and> (\<forall>m < manager_next w. \<forall>entries.
          guards (manager_heap
            ((snd (forGuard w this g))
               \<lparr>map_heap := (map_heap (snd (forGuard w this g)))
                  (guards_at (manager_store (snd (forGuard w this g)) (fst (forGuard w this g)))
                     := entries)\<rparr>) m)
            = guards (manager_heap w m))
    \<and> (\<forall>m < manager_next w. \<forall>fields.
          config (manager_heap
            ((snd (forGuard w this g))
               \<lparr>config_heap := (config_heap (snd (forGuard w this g)))
                  (config_at (manager_store (snd (forGuard w this g)) (fst (forGuard w this g)))
                     := fields)\<rparr>) m)
            = config (manager_heap w m))
    \<and> config (manager_heap (snd (forGuard w this g)) (fst (forGuard w this g)))
        = (config (manager_heap w this))\<lparr>defaultGuard := g\<rparr>
    \<and> customPermissionChecks (manager_heap (snd (forGuard w this g)) (fst (forGuard w this g)))
        = Map.empty
    \<and> customRoleChecks (manager_heap (snd (forGuard w this g)) (fst (forGuard w this g)))
        = Map.empty"
proof (intro conjI allI impI)
  show "fst (forGuard w this g) = manager_next w"
    by (rule forGuard_fst)
  show "guards (manager_heap (snd (forGuard w this g)) (fst (forGuard w this g)))
        = guards (manager_heap w this)"
    by (simp add: forGuard_fst forGuard_manager [OF assms])
  show "defaultGuard (config (manager_heap (snd (forGuard w this g)) (fst (forGuard w this g)))) = g"
    by (simp add: forGuard_fst forGuard_manager [OF assms])
  show "manager_heap (snd (forGuard w this g)) this = manager_heap w this"
    by (rule forGuard_others [OF assms assms])
  show "manager_heap (snd (forGuard w this g)) m = manager_heap w m" if "m < manager_next w" for m
    by (rule forGuard_others [OF assms that])
  show "guard_heap (snd (forGuard w this g)) r = guard_heap w r" if "r < guard_next w" for r
    using that by (simp add: forGuard_eq [OF assms])
  show "guards (manager_heap (snd (createGuard (snd (forGuard w this g)) (fst (forGuard w this g)) n)) this)
            = guards (manager_heap w this)" for n
    using assms fresh_map_neq [OF assms]
    by (simp add: forGuard_eq [OF assms] createGuard_def manager_heap_def Let_def)
  show "guards (manager_heap (snd (createGuard (snd (forGuard w this g)) (fst (forGuard w this g)) n))
                 (fst (forGuard w this g)))
            = (guards (manager_heap w this))(n \<mapsto> Suc (guard_next w))" for n
    using assms fresh_map_neq [OF assms]
    by (simp add: forGuard_eq [OF assms] createGuard_def manager_heap_def Let_def)
  show "guards_at (manager_store (snd (forGuard w this g)) (fst (forGuard w this g)))
            \<noteq> guards_at (manager_store w m)" if "m < manager_next w" for m
    using that fresh_map_neq [OF that]
    by (simp add: forGuard_eq [OF assms])
  show "guards_at (manager_store (snd (forGuard w this g)) m) = guards_at (manager_store w m)"
    if "m < manager_next w" for m
    using that by (simp add: forGuard_eq [OF assms])
  show "config_at (manager_store (snd (forGuard w this g)) (fst (forGuard w this g)))
            \<noteq> config_at (manager_store w m)" if "m < manager_next w" for m
    using that fresh_config_neq [OF that]
    by (simp add: forGuard_eq [OF assms])
  show "config_at (manager_store (snd (forGuard w this g)) m) = config_at (manager_store w m)"
    if "m < manager_next w" for m
    using that by (simp add: forGuard_eq [OF assms])
  show "guards (manager_heap (snd (createGuard (snd (forGuard w this g)) m n)) (fst (forGuard w this g)))
            = guards (manager_heap w this)" if "m < manager_next w" for m n
    using that assms fresh_map_neq [OF that] fresh_map_neq [OF assms]
    by (simp add: forGuard_eq [OF assms] createGuard_def manager_heap_def Let_def)
  show "guards (manager_heap (snd (createGuard (snd (forGuard w this g)) m n)) m)
            = (guards (manager_heap w m))(n \<mapsto> Suc (guard_next w))" if "m < manager_next w" for m n
    using that assms fresh_map_neq [OF that] fresh_map_neq [OF assms]
    by (simp add: forGuard_eq [OF assms] createGuard_def manager_heap_def Let_def)
  show "guards (manager_heap
            ((snd (forGuard w this g))
               \<lparr>map_heap := (map_heap (snd (forGuard w this g)))
                  (guards_at (manager_store (snd (forGuard w this g)) (fst (forGuard w this g)))
                     := entries)\<rparr>) m)
            = guards (manager_heap w m)" if "m < manager_next w" for m entries
    using that assms fresh_map_neq [OF that] fresh_map_neq [OF assms]
    by (simp add: forGuard_eq [OF assms] manager_heap_def Let_def)
  show "config (manager_heap
            ((snd (forGuard w this g))
               \<lparr>config_heap := (config_heap (snd (forGuard w this g)))
                  (config_at (manager_store (snd (forGuard w this g)) (fst (forGuard w this g)))
                     := fields)\<rparr>) m)
            = config (manager_heap w m)" if "m < manager_next w" for m fields
    using that assms fresh_config_neq [OF that] fresh_config_neq [OF assms]
    by (simp add: forGuard_eq [OF assms] manager_heap_def Let_def)
  show "config (manager_heap (snd (forGuard w this g)) (fst (forGuard w this g)))
        = (config (manager_heap w this))\<lparr>defaultGuard := g\<rparr>"
    by (simp add: forGuard_fst forGuard_manager [OF assms])
  show "customPermissionChecks (manager_heap (snd (forGuard w this g)) (fst (forGuard w this g)))
        = Map.empty"
    by (simp add: forGuard_fst forGuard_manager [OF assms])
  show "customRoleChecks (manager_heap (snd (forGuard w this g)) (fst (forGuard w this g)))
        = Map.empty"
    by (simp add: forGuard_fst forGuard_manager [OF assms])
qed

text \<open>A fresh manager and its \<^verbatim>\<open>api\<close> copy: the copy's map and configuration lie at other
  addresses, and a guard created through either manager afterwards is not seen by the
  other.\<close>

theorem forGuard_frame_witness:
  "fst (forGuard world1 0 ''api'') = 1
   \<and> guards (manager_heap (snd (forGuard world1 0 ''api'')) 1) ''web'' = Some 0
   \<and> defaultGuard (config (manager_heap (snd (forGuard world1 0 ''api'')) 1)) = ''api''
   \<and> manager_heap (snd (forGuard world1 0 ''api'')) 0 = manager_heap world1 0
   \<and> guards (manager_heap (snd (createGuard (snd (forGuard world1 0 ''api'')) 1 ''api'')) 0) ''api''
       = None
   \<and> guards_at (manager_store (snd (forGuard world1 0 ''api'')) 1) \<noteq> guards_at (manager_store world1 0)
   \<and> config_at (manager_store (snd (forGuard world1 0 ''api'')) 1) \<noteq> config_at (manager_store world1 0)
   \<and> defaultGuard (config (manager_heap (snd (forGuard world1 0 ''api'')) 0)) = ''web''
   \<and> guards (manager_heap (snd (createGuard (snd (forGuard world1 0 ''api'')) 0 ''api'')) 1) ''api''
       = None
   \<and> guards (manager_heap (snd (createGuard (snd (forGuard world1 0 ''api'')) 0 ''api'')) 0) ''api''
       = Some 2"
proof -
  have v: "0 < manager_next world1"
    by (simp add: world1_eq)
  have n: "manager_next world1 = 1" "guard_next world1 = 1"
    by (simp_all add: world1_eq)
  have g: "guards (manager_heap world1 0) = [''web'' \<mapsto> 0]"
    by (simp add: world1_manager)
  have d: "defaultGuard (config (manager_heap world1 0)) = ''web''"
    by (simp add: world1_manager merge_config_def no_config_def)
  have a: "fst (forGuard world1 0 ''api'') = Suc 0"
    using forGuard_frame [OF v, of "''api''"] by (simp add: n)
  show ?thesis
    using forGuard_frame [OF v, of "''api''"]
    by (simp add: n g a d)
qed

text \<open>
  C9. When the argument names no guard of this manager, the manager \<open>forGuard\<close> returns
  has no guard of that name either (the guard its constructor created, named after this
  manager's default guard, went with the map that was replaced), and its default guard is
  the argument: every operation that resolves the default guard fails with
  \<open>GuardNotFoundException\<close>.
\<close>

theorem forGuard_missing_default_guard:
  assumes "this < manager_next w" and "guards (manager_heap w this) g = None"
  shows "guards (manager_heap (snd (forGuard w this g)) (fst (forGuard w this g))) g = None
    \<and> getDefaultGuard (snd (forGuard w this g)) (fst (forGuard w this g)) = Inl (GuardNotFoundException g)
    \<and> createPermission (snd (forGuard w this g)) (fst (forGuard w this g)) n None = Inl (GuardNotFoundException g)
    \<and> createRole (snd (forGuard w this g)) (fst (forGuard w this g)) n None = Inl (GuardNotFoundException g)
    \<and> getPermission (snd (forGuard w this g)) (fst (forGuard w this g)) n None = Inl (GuardNotFoundException g)
    \<and> getRole (snd (forGuard w this g)) (fst (forGuard w this g)) n None = Inl (GuardNotFoundException g)
    \<and> Manager_getAllPermissions (snd (forGuard w this g)) (fst (forGuard w this g)) None = Inl (GuardNotFoundException g)
    \<and> Manager_getAllRoles (snd (forGuard w this g)) (fst (forGuard w this g)) None = Inl (GuardNotFoundException g)"
proof -
  have gg: "getGuard (snd (forGuard w this g)) (fst (forGuard w this g)) g = Inl (GuardNotFoundException g)"
    using assms by (simp add: forGuard_fst forGuard_manager getGuard_def)
  have rg: "resolve_guard (snd (forGuard w this g)) (fst (forGuard w this g)) None = g"
    using assms by (simp add: forGuard_fst forGuard_manager resolve_guard_def str_or_def)
  have dg: "defaultGuard (config (manager_heap (snd (forGuard w this g)) (fst (forGuard w this g)))) = g"
    using assms by (simp add: forGuard_fst forGuard_manager)
  have ng: "guards (manager_heap (snd (forGuard w this g)) (fst (forGuard w this g))) g = None"
    using assms by (simp add: forGuard_fst forGuard_manager)
  show ?thesis
    by (simp add: ng getDefaultGuard_def dg createPermission_def createRole_def getPermission_def getRole_def
        Manager_getAllPermissions_def Manager_getAllRoles_def rg gg)
qed



theorem forGuard_missing_default_guard_witness:
  "getDefaultGuard (snd (forGuard world1 0 ''api'')) (fst (forGuard world1 0 ''api''))
     = Inl (GuardNotFoundException ''api'')
   \<and> createPermission (snd (forGuard world1 0 ''api'')) (fst (forGuard world1 0 ''api''))
       ''edit-users'' None
     = Inl (GuardNotFoundException ''api'')
   \<and> getDefaultGuard world1 0 = Inr 0"
proof -
  have v: "0 < manager_next world1"
    by (simp add: world1_eq)
  have g: "guards (manager_heap world1 0) ''api'' = None"
    by (simp add: world1_manager)
  have d: "getDefaultGuard world1 0 = Inr 0"
    by (simp add: getDefaultGuard_def getGuard_def world1_manager merge_config_def no_config_def)
  show ?thesis
    using forGuard_missing_default_guard [OF v g, of "''edit-users''"] d
    by simp
qed

end
